theory Spec2Isabelle
  imports Complex_Main
begin

section \<open>JavaScript values used by the storyboard code\<close>

text \<open>
  Numbers are IEEE doubles in the source. The model takes a finite number as the real it
  denotes and computes with exact real arithmetic; the three non-finite values are kept
  apart. Rounding to the nearest double is not part of the model.
\<close>

datatype number = Num real | NaN | PosInfinity | NegInfinity

text \<open>
  Strings are lists of characters with code units below 256. The white space that
  \<open>parseFloat\<close> skips is, in this range, TAB, LF, VT, FF, CR, SP and NBSP.
\<close>

definition is_white_space :: "char \<Rightarrow> bool" where
  "is_white_space c = ((of_char c :: nat) \<in> {9, 10, 11, 12, 13, 32, 160})"

definition is_digit :: "char \<Rightarrow> bool" where
  "is_digit c = (48 \<le> (of_char c :: nat) \<and> (of_char c :: nat) \<le> 57)"

definition digit_val :: "char \<Rightarrow> nat" where
  "digit_val c = of_char c - 48"

definition digit_char :: "nat \<Rightarrow> char" where
  "digit_char d = char_of (48 + d)"

text \<open>The mathematical value of a string of decimal digits, most significant first.\<close>

definition digits_value :: "string \<Rightarrow> nat" where
  "digits_value ds = foldl (\<lambda>a c. 10 * a + digit_val c) 0 ds"

text \<open>The decimal representation of a natural number, as \<open>ToString\<close> writes it.\<close>

fun decimal_digits :: "nat \<Rightarrow> string" where
  "decimal_digits n =
     (if n < 10 then [digit_char n]
      else decimal_digits (n div 10) @ [digit_char (n mod 10)])"

declare decimal_digits.simps [simp del]

text \<open>
  An optional sign in front of a numeral or of an exponent: the flag says whether the
  sign was a minus, the string is what follows the sign.
\<close>

fun strip_sign :: "string \<Rightarrow> bool \<times> string" where
  "strip_sign [] = (False, [])"
| "strip_sign (c # r) =
     (if c = CHR ''-'' then (True, r)
      else if c = CHR ''+'' then (False, r)
      else (False, c # r))"

text \<open>
  The factor contributed by an exponent part \<open>e\<close>/\<open>E\<close>, optional sign, digits.
  Without at least one digit the exponent does not belong to the numeral.
\<close>

definition exponent_factor :: "string \<Rightarrow> real" where
  "exponent_factor r =
     (case r of
        [] \<Rightarrow> 1
      | c # r' \<Rightarrow>
          if c = CHR ''e'' \<or> c = CHR ''E'' then
            (let (eneg, d) = strip_sign r'; ed = takeWhile is_digit d
             in if ed = [] then 1
                else if eneg then 1 / 10 ^ digits_value ed
                else 10 ^ digits_value ed)
          else 1)"

text \<open>
  \<open>parseFloat\<close>: skip leading white space, then read the longest prefix that is a
  decimal literal (sign, \<open>Infinity\<close>, or digits with an optional fraction and
  exponent); \<open>NaN\<close> when there is none. Whatever follows the literal is ignored.
\<close>

definition parseFloat :: "string \<Rightarrow> number" where
  "parseFloat s =
     (let (neg, u) = strip_sign (dropWhile is_white_space s)
      in if take 8 u = ''Infinity'' then (if neg then NegInfinity else PosInfinity)
         else
           (let ip = takeWhile is_digit u;
                r1 = dropWhile is_digit u;
                (fp, r2) = (case r1 of
                              [] \<Rightarrow> ([], r1)
                            | c # r \<Rightarrow>
                                if c = CHR ''.''
                                then (takeWhile is_digit r, dropWhile is_digit r)
                                else ([], r1))
            in if ip = [] \<and> fp = [] then NaN
               else Num ((if neg then - 1 else 1)
                         * (real (digits_value ip)
                            + real (digits_value fp) / 10 ^ length fp)
                         * exponent_factor r2)))"


text \<open>\<open>String.prototype.split\<close> with a one-character separator.\<close>

fun split :: "char \<Rightarrow> string \<Rightarrow> string list" where
  "split d [] = [[]]"
| "split d (c # cs) =
     (if c = d then [] # split d cs
      else (case split d cs of [] \<Rightarrow> [[c]] | t # ts \<Rightarrow> (c # t) # ts))"

definition endsWith :: "string \<Rightarrow> string \<Rightarrow> bool" where
  "endsWith s suffix = (length suffix \<le> length s \<and> drop (length s - length suffix) s = suffix)"

text \<open>
  Reading a property of an object literal by an arbitrary string key. The literal's own
  entries come first; a key that is not an own entry is looked up on
  \<open>Object.prototype\<close>, whose members are not \<open>undefined\<close>; only after that is the
  result \<open>undefined\<close>.
\<close>

definition object_prototype_keys :: "string list" where
  "object_prototype_keys =
     [''constructor'', ''hasOwnProperty'', ''isPrototypeOf'', ''propertyIsEnumerable'',
      ''toLocaleString'', ''toString'', ''valueOf'', ''__proto__'',
      ''__defineGetter__'', ''__defineSetter__'', ''__lookupGetter__'', ''__lookupSetter__'']"

datatype 'a property = Own 'a | Inherited | Undefined

definition get_property :: "(string \<times> 'a) list \<Rightarrow> string \<Rightarrow> 'a property" where
  "get_property obj k =
     (case map_of obj k of
        Some v \<Rightarrow> Own v
      | None \<Rightarrow> if k \<in> set object_prototype_keys then Inherited else Undefined)"

section \<open>Crop and viewport model (StoryboardCard)\<close>

subsection \<open>parsePosition\<close>

text \<open>
  What \<open>parse\<close> hands back for one token: a number, or the member of
  \<open>Object.prototype\<close> found under the token's name.
\<close>

datatype coordinate = Number number | PrototypeMember string

definition keyword_map :: "(string \<times> real) list" where
  "keyword_map =
     [(''left'', 0), (''center'', 50), (''right'', 100), (''top'', 0), (''bottom'', 100)]"

definition parse :: "string \<Rightarrow> coordinate" where
  "parse p =
     (case get_property keyword_map p of
        Own v \<Rightarrow> Number (Num v)
      | Inherited \<Rightarrow> PrototypeMember p
      | Undefined \<Rightarrow> if endsWith p ''%'' then Number (parseFloat p) else Number (Num 50))"

text \<open>\<open>parts[i] || 'center'\<close>: a missing or empty token is replaced by \<open>center\<close>.\<close>

definition token_or_center :: "string list \<Rightarrow> nat \<Rightarrow> string" where
  "token_or_center parts i =
     (if i < length parts \<and> parts ! i \<noteq> [] then parts ! i else ''center'')"

definition parsePosition :: "string \<Rightarrow> coordinate \<times> coordinate" where
  "parsePosition posStr =
     (let parts = split (CHR '' '') posStr;
          xStr = token_or_center parts 0;
          yStr = token_or_center parts 1
      in (parse xStr, parse yStr))"

text \<open>
  The rule of the specification for one token of a position string (\<open>parseAnchor\<close>):
  the five keywords have their values, a token that ends in a percent sign has the
  number read from it, and every other token, the empty one too, counts as 50.
\<close>

definition parseAnchor_token :: "string \<Rightarrow> number" where
  "parseAnchor_token t =
     (if t = ''left'' then Num 0
      else if t = ''center'' then Num 50
      else if t = ''right'' then Num 100
      else if t = ''top'' then Num 0
      else if t = ''bottom'' then Num 100
      else if t \<noteq> [] \<and> last t = CHR ''%'' then parseFloat t
      else Num 50)"

subsection \<open>Crop rectangle\<close>

text \<open>
  The four crop values of the card, in percent of the source image, from the zoom and
  the two anchor coordinates. The division is by \<open>zoom / 100\<close>, which is at least 1 on
  the zoom domain; a zoom of 0 gives \<open>Infinity\<close> in the source and is not covered here.
\<close>

definition cropWidth :: "real \<Rightarrow> real" where
  "cropWidth z = 100 / (z / 100)"

definition cropHeight :: "real \<Rightarrow> real" where
  "cropHeight z = 100 / (z / 100)"

definition cropLeft :: "real \<Rightarrow> real \<Rightarrow> real" where
  "cropLeft z pos_x = pos_x * (1 - cropWidth z / 100)"

definition cropTop :: "real \<Rightarrow> real \<Rightarrow> real" where
  "cropTop z pos_y = pos_y * (1 - cropHeight z / 100)"

subsection \<open>Drag to reposition\<close>






section \<open>Shot sequence controller (App)\<close>

subsection \<open>Data\<close>

datatype ImageResolution = Res1K | Res2K | Res4K

datatype asset_type = AssetEnvironment | AssetCharacter | AssetProp | AssetStyle | AssetOther

record VisualAsset =
  asset_id :: string
  asset_data :: string
  asset_type :: asset_type
  asset_label :: string

record ShotPreset =
  preset_zoom :: real
  preset_position :: string

text \<open>
  A frame of the storyboard. \<open>image\<close> is \<open>null\<close> (here \<open>None\<close>) until a render
  succeeds. \<open>zoom\<close> and \<open>position\<close> are declared as number and string; they are
  options here because the preset lookup by an unchecked shot type can store
  \<open>undefined\<close> (here \<open>None\<close>) in them.
\<close>

record Frame =
  image_f :: "string option"
  shotType :: string
  action :: string
  dialogue :: string
  zoom :: "real option"
  position :: "string option"

text \<open>One entry of the planner's answer; only these two optional fields are read.\<close>

record FrameData =
  fd_shotType :: "string option"
  fd_action :: "string option"

definition SHOT_TYPE_PRESETS :: "(string \<times> ShotPreset) list" where
  "SHOT_TYPE_PRESETS =
     [(''ELS'', \<lparr>preset_zoom = 100, preset_position = ''center center''\<rparr>),
      (''LS'',  \<lparr>preset_zoom = 120, preset_position = ''center center''\<rparr>),
      (''FS'',  \<lparr>preset_zoom = 140, preset_position = ''center center''\<rparr>),
      (''MS'',  \<lparr>preset_zoom = 180, preset_position = ''center 20%''\<rparr>),
      (''CU'',  \<lparr>preset_zoom = 240, preset_position = ''center 15%''\<rparr>),
      (''ECU'', \<lparr>preset_zoom = 350, preset_position = ''center 30%''\<rparr>),
      (''POV'', \<lparr>preset_zoom = 130, preset_position = ''center center''\<rparr>),
      (''OTS'', \<lparr>preset_zoom = 160, preset_position = ''20% center''\<rparr>),
      (''LA'',  \<lparr>preset_zoom = 130, preset_position = ''center bottom''\<rparr>),
      (''HA'',  \<lparr>preset_zoom = 130, preset_position = ''center top''\<rparr>),
      (''DA'',  \<lparr>preset_zoom = 120, preset_position = ''center center''\<rparr>),
      (''OH'',  \<lparr>preset_zoom = 100, preset_position = ''center center''\<rparr>),
      (''BE'',  \<lparr>preset_zoom = 100, preset_position = ''center center''\<rparr>)]"

text \<open>
  Errors and user messages. The message texts of the source are Chinese sentences; each
  is a constructor here: \<open>UploadAssetFirst\<close> is the message of the error thrown by
  \<open>runAnalysisIfNeeded\<close> without assets, \<open>PlanningFailed\<close> that of the error thrown
  on an empty plan, \<open>ImageNotReturned r\<close> the text
  \<open>r Rendering Error: Image not returned by engine.\<close>, and \<open>ServiceMessage\<close> whatever
  the client of the external service reports. \<open>TypeError\<close> is the engine's error on
  reading a property of \<open>undefined\<close>.
\<close>

datatype message = UploadAssetFirst | PlanningFailed | ImageNotReturned ImageResolution
  | ServiceMessage string

datatype exn = Error message | TypeError

text \<open>
  The calls of \<open>alert\<close>: the request to enter a scene description, the request to
  upload a reference image, the prefix "generation failed" followed by \<open>e.message\<close>, and
  \<open>e.message\<close> alone.
\<close>

datatype alert = AlertEnterScene | AlertUploadReference | AlertGenerationFailed exn
  | AlertMessage exn

text \<open>
  The state of the \<open>App\<close> component, followed by what it did to the outside: the
  alerts shown, the render failures written with \<open>console.error\<close> (frame index and
  error), the number of calls of \<open>analyzeProductionAssets\<close>, and the frame indices of
  the calls of \<open>generateCinemaFrame\<close> that have been made and have not yet resolved.

  A handler of the source reads the state of the render in which it was created; the
  model runs each handler on the state at the moment it is called.
\<close>

record App =
  assets :: "VisualAsset list"
  sceneDesc :: string
  productionProtocol :: string
  isGenerating :: bool
  isAnalyzing :: bool
  regeneratingIndices :: "nat \<Rightarrow> bool option"
  targetResolution :: ImageResolution
  frames :: "Frame list"
  alerts :: "alert list"
  console_errors :: "(nat \<times> exn) list"
  analyzeCalls :: nat
  rendersInFlight :: "nat list"

definition initial_frame :: Frame where
  "initial_frame =
     \<lparr>image_f = None, shotType = ''MS'', action = '''', dialogue = '''',
      zoom = Some 180, position = Some ''center 20%''\<rparr>"

definition initial_App :: App where
  "initial_App =
     \<lparr>assets = [], sceneDesc = '''', productionProtocol = '''',
      isGenerating = False, isAnalyzing = False, regeneratingIndices = Map.empty,
      targetResolution = Res4K, frames = replicate 27 initial_frame,
      alerts = [], console_errors = [], analyzeCalls = 0, rendersInFlight = []\<rparr>"

subsection \<open>The service wrappers (geminiService)\<close>

text \<open>
  The external service is not part of the program: its answer to each call is an
  argument of the model. The prompt texts sent to it are not modelled.

  For \<open>analyzeProductionAssets\<close> the answer is an error thrown by the call, or the
  optional \<open>text\<close> of the response.
\<close>

type_synonym analysis_response = "exn + string option"

definition analyzeProductionAssets :: "VisualAsset list \<Rightarrow> analysis_response \<Rightarrow> exn + string" where
  "analyzeProductionAssets as response =
     (if as = [] then Inr ''No assets provided. Proceeding with general consistency.''
      else (case response of
              Inl e \<Rightarrow> Inl e
            | Inr None \<Rightarrow> Inr ''Protocol synthesis failed.''
            | Inr (Some t) \<Rightarrow> Inr (if t = [] then ''Protocol synthesis failed.'' else t)))"

text \<open>
  For \<open>generateCinemaFrame\<close> the answer is an error thrown by the call, or the parts of
  the first candidate, each with the data of its \<open>inlineData\<close> when it has one. The
  first part with inline data is the image; without one the wrapper throws.
\<close>

type_synonym render_response = "exn + string option list"

fun first_inline_data :: "string option list \<Rightarrow> string option" where
  "first_inline_data [] = None"
| "first_inline_data (None # ps) = first_inline_data ps"
| "first_inline_data (Some d # ps) = Some d"

definition generateCinemaFrame :: "ImageResolution \<Rightarrow> render_response \<Rightarrow> exn + string" where
  "generateCinemaFrame resolution response =
     (case response of
        Inl e \<Rightarrow> Inl e
      | Inr parts \<Rightarrow>
          (case first_inline_data parts of
             Some d \<Rightarrow> Inr (''data:image/png;base64,'' @ d)
           | None \<Rightarrow> Inl (Error (ImageNotReturned resolution))))"

text \<open>
  For \<open>planStoryboardSequence\<close> the answer is an error thrown by the call, or the
  response text: absent, not parsable as a JSON array (\<open>JSON.parse\<close> or \<open>slice\<close>
  throws, which the wrapper catches), or a JSON array of entries.
\<close>

datatype plan_text = NoText | Unparsable | Parsed "FrameData list"

type_synonym plan_response = "exn + plan_text"

definition planStoryboardSequence :: "plan_response \<Rightarrow> exn + FrameData list" where
  "planStoryboardSequence response =
     (case response of
        Inl e \<Rightarrow> Inl e
      | Inr NoText \<Rightarrow> Inr []
      | Inr Unparsable \<Rightarrow> Inr []
      | Inr (Parsed plan) \<Rightarrow> Inr (take 27 plan))"

subsection \<open>Asset list and visual protocol\<close>

text \<open>
  \<open>handleAssetUpload\<close> starts one \<open>FileReader\<close> per chosen file. When a reader has
  loaded its file and the result is a non-empty string, the new asset is appended. The
  asset's id is random in the source and an argument here.
\<close>

record uploaded_file =
  file_name :: string
  file_result :: "string option"

definition reader_onload :: "string \<Rightarrow> uploaded_file \<Rightarrow> App \<Rightarrow> App" where
  "reader_onload new_id file s =
     (case file_result file of
        None \<Rightarrow> s
      | Some d \<Rightarrow>
          if d = [] then s
          else s\<lparr>assets := assets s @
                 [\<lparr>asset_id = new_id, asset_data = d, asset_type = AssetOther,
                   asset_label = file_name file\<rparr>]\<rparr>)"

text \<open>The files are given with their ids, in the order in which the readers finish.\<close>

definition handleAssetUpload :: "(string \<times> uploaded_file) list \<Rightarrow> App \<Rightarrow> App" where
  "handleAssetUpload files s = foldl (\<lambda>s' (new_id, file). reader_onload new_id file s') s files"

definition removeAsset :: "string \<Rightarrow> App \<Rightarrow> App" where
  "removeAsset rid s =
     s\<lparr>assets := filter (\<lambda>a. asset_id a \<noteq> rid) (assets s), productionProtocol := ''''\<rparr>"

text \<open>
  \<open>runAnalysisIfNeeded\<close> returns the protocol or throws; the state it leaves is the
  second component.
\<close>

definition runAnalysisIfNeeded :: "analysis_response \<Rightarrow> App \<Rightarrow> (exn + string) \<times> App" where
  "runAnalysisIfNeeded response s =
     (if productionProtocol s \<noteq> '''' then (Inr (productionProtocol s), s)
      else if assets s = [] then (Inl (Error UploadAssetFirst), s)
      else
        (let s1 = s\<lparr>isAnalyzing := True, analyzeCalls := analyzeCalls s + 1\<rparr>
         in case analyzeProductionAssets (assets s) response of
              Inl e \<Rightarrow> (Inl e, s1\<lparr>isAnalyzing := False\<rparr>)
            | Inr protocol \<Rightarrow>
                (Inr protocol, s1\<lparr>productionProtocol := protocol, isAnalyzing := False\<rparr>)))"

subsection \<open>Rendering one frame\<close>

text \<open>
  \<open>performRegeneration\<close> is asynchronous: it runs up to the call of
  \<open>generateCinemaFrame\<close>, and continues when that call resolves.

  The first part returns whether the call was made. Nothing happens without a protocol
  and without assets. Otherwise the flag of the index is set; reading the shot type of
  a frame that does not exist throws a \<open>TypeError\<close>, which is caught and logged, and
  the flag is cleared again. The flags are not read.
\<close>

definition performRegeneration_start :: "nat \<Rightarrow> Frame list \<Rightarrow> string \<Rightarrow> App \<Rightarrow> bool \<times> App" where
  "performRegeneration_start index currentFrames currentProtocol s =
     (if currentProtocol = '''' \<and> assets s = [] then (False, s)
      else
        (let s1 = s\<lparr>regeneratingIndices := (regeneratingIndices s)(index \<mapsto> True)\<rparr>
         in if index < length currentFrames
            then (True, s1\<lparr>rendersInFlight := rendersInFlight s1 @ [index]\<rparr>)
            else (False, s1\<lparr>console_errors := console_errors s1 @ [(index, TypeError)],
                             regeneratingIndices := (regeneratingIndices s1)(index \<mapsto> False)\<rparr>)))"

text \<open>
  The second part, with the outcome of the call. On success the image of the frame at
  the index is replaced in the current frame list; on failure the error is logged. In
  both cases the flag is cleared. The result is \<open>None\<close> when the index is past the end
  of the current frame list: the source then grows the array, leaving holes and a
  record that has only an image, which is no frame list.
\<close>

definition performRegeneration_resolve :: "nat \<Rightarrow> exn + string \<Rightarrow> App \<Rightarrow> App option" where
  "performRegeneration_resolve index outcome s =
     (let s1 = s\<lparr>rendersInFlight := remove1 index (rendersInFlight s)\<rparr>
      in case outcome of
           Inr newImage \<Rightarrow>
             if index < length (frames s1)
             then Some (s1\<lparr>frames := (frames s1)[index := (frames s1 ! index)\<lparr>image_f := Some newImage\<rparr>],
                           regeneratingIndices := (regeneratingIndices s1)(index \<mapsto> False)\<rparr>)
             else None
         | Inl e \<Rightarrow>
             Some (s1\<lparr>console_errors := console_errors s1 @ [(index, e)],
                      regeneratingIndices := (regeneratingIndices s1)(index \<mapsto> False)\<rparr>))"

text \<open>
  The whole of \<open>performRegeneration\<close> when nothing else happens before the call
  resolves. The optional \<open>res\<close> overrides the target resolution.
\<close>

definition performRegeneration ::
  "nat \<Rightarrow> Frame list \<Rightarrow> string \<Rightarrow> ImageResolution option \<Rightarrow> render_response \<Rightarrow> App \<Rightarrow> App option" where
  "performRegeneration index currentFrames currentProtocol res response s =
     (let resolution = (case res of Some r \<Rightarrow> r | None \<Rightarrow> targetResolution s)
      in case performRegeneration_start index currentFrames currentProtocol s of
           (False, s1) \<Rightarrow> Some s1
         | (True, s1) \<Rightarrow>
             performRegeneration_resolve index (generateCinemaFrame resolution response) s1)"

subsection \<open>Editing a frame\<close>

text \<open>
  The calls of \<open>onChange(index, field, val)\<close>, with the value typed as the field is.
\<close>

datatype field_update = SetImage string | SetShotType string | SetAction string
  | SetDialogue string | SetZoom real | SetPosition string

definition assign_field :: "field_update \<Rightarrow> Frame \<Rightarrow> Frame" where
  "assign_field u f =
     (case u of
        SetImage v \<Rightarrow> f\<lparr>image_f := Some v\<rparr>
      | SetShotType v \<Rightarrow> f\<lparr>shotType := v\<rparr>
      | SetAction v \<Rightarrow> f\<lparr>action := v\<rparr>
      | SetDialogue v \<Rightarrow> f\<lparr>dialogue := v\<rparr>
      | SetZoom v \<Rightarrow> f\<lparr>zoom := Some v\<rparr>
      | SetPosition v \<Rightarrow> f\<lparr>position := Some v\<rparr>)"

text \<open>
  \<open>if (preset) { zoom = preset.zoom; position = preset.position }\<close>: an own entry of
  the table gives its pair; a member of \<open>Object.prototype\<close> is truthy and has neither
  property, so both fields become \<open>undefined\<close>; without a preset nothing changes.
\<close>

definition apply_preset :: "string \<Rightarrow> Frame \<Rightarrow> Frame" where
  "apply_preset v f =
     (case get_property SHOT_TYPE_PRESETS v of
        Own preset \<Rightarrow> f\<lparr>zoom := Some (preset_zoom preset), position := Some (preset_position preset)\<rparr>
      | Inherited \<Rightarrow> f\<lparr>zoom := None, position := None\<rparr>
      | Undefined \<Rightarrow> f)"

text \<open>
  \<open>handleFrameChange\<close>. Writing to a frame that does not exist throws a
  \<open>TypeError\<close>. A change of the shot type also applies the preset and, with a protocol
  or an asset, starts a render of that frame without waiting for it. The source writes
  into the frame object of the previous list, which the new list shares; the model
  replaces the element of the list and has no sharing.
\<close>

definition handleFrameChange :: "nat \<Rightarrow> field_update \<Rightarrow> App \<Rightarrow> exn + App" where
  "handleFrameChange idx u s =
     (if length (frames s) \<le> idx then Inl TypeError
      else
        (let f = assign_field u (frames s ! idx)
         in case u of
              SetShotType v \<Rightarrow>
                (let newFrames = (frames s)[idx := apply_preset v f];
                     s1 = (if productionProtocol s \<noteq> '''' \<or> assets s \<noteq> []
                           then snd (performRegeneration_start idx newFrames (productionProtocol s) s)
                           else s)
                 in Inr (s1\<lparr>frames := newFrames\<rparr>))
            | _ \<Rightarrow> Inr (s\<lparr>frames := (frames s)[idx := f]\<rparr>)))"

subsection \<open>Regenerating one frame on request\<close>

text \<open>
  \<open>handleRegenerateFrame\<close> up to the point where it waits for the render call (or
  returns without one). The first component says whether a render call was made.
\<close>

definition handleRegenerateFrame_request :: "nat \<Rightarrow> analysis_response \<Rightarrow> App \<Rightarrow> bool \<times> App" where
  "handleRegenerateFrame_request index analysis s =
     (if assets s = [] then (False, s\<lparr>alerts := alerts s @ [AlertUploadReference]\<rparr>)
      else
        (case runAnalysisIfNeeded analysis s of
           (Inl e, s1) \<Rightarrow> (False, s1\<lparr>alerts := alerts s1 @ [AlertMessage e]\<rparr>)
         | (Inr protocol, s1) \<Rightarrow> performRegeneration_start index (frames s) protocol s1))"

text \<open>The whole handler when nothing else happens before the render call resolves.\<close>

definition handleRegenerateFrame ::
  "nat \<Rightarrow> analysis_response \<Rightarrow> render_response \<Rightarrow> App \<Rightarrow> App option" where
  "handleRegenerateFrame index analysis response s =
     (case handleRegenerateFrame_request index analysis s of
        (False, s1) \<Rightarrow> Some s1
      | (True, s1) \<Rightarrow>
          performRegeneration_resolve index
            (generateCinemaFrame (targetResolution s) response) s1)"

text \<open>The card's render button is disabled while the flag of its frame is set, and
  without an action text.\<close>

definition render_button_disabled :: "nat \<Rightarrow> App \<Rightarrow> bool" where
  "render_button_disabled index s =
     (regeneratingIndices s index = Some True \<or> action (frames s ! index) = '''')"

text \<open>
  A click on the render button of the card of a frame: \<open>onRegenerate(index)\<close>, that is
  \<open>handleRegenerateFrame\<close>, unless the button is disabled. There is a card for every
  frame of the list and for no other index.
\<close>

definition render_button_click :: "nat \<Rightarrow> analysis_response \<Rightarrow> App \<Rightarrow> bool \<times> App" where
  "render_button_click index analysis s =
     (if length (frames s) \<le> index \<or> render_button_disabled index s then (False, s)
      else handleRegenerateFrame_request index analysis s)"

subsection \<open>Generating the whole storyboard\<close>

text \<open>
  The frame made from an old frame and the plan entry at its index (\<open>None\<close> when the
  plan has no entry there): \<open>p.shotType || 'MS'\<close>, \<open>p.action || ''\<close>, and the preset
  of the shot type or, without one, zoom 100 at the centre.
\<close>

definition text_or :: "string option \<Rightarrow> string \<Rightarrow> string" where
  "text_or v d = (case v of None \<Rightarrow> d | Some t \<Rightarrow> if t = [] then d else t)"

definition planned_frame :: "FrameData option \<Rightarrow> Frame \<Rightarrow> Frame" where
  "planned_frame entry f =
     (let sType = text_or (case entry of None \<Rightarrow> None | Some p \<Rightarrow> fd_shotType p) ''MS'';
          act = text_or (case entry of None \<Rightarrow> None | Some p \<Rightarrow> fd_action p) ''''
      in case get_property SHOT_TYPE_PRESETS sType of
           Own preset \<Rightarrow>
             f\<lparr>image_f := None, shotType := sType, action := act,
               zoom := Some (preset_zoom preset), position := Some (preset_position preset)\<rparr>
         | Inherited \<Rightarrow>
             f\<lparr>image_f := None, shotType := sType, action := act,
               zoom := None, position := None\<rparr>
         | Undefined \<Rightarrow>
             f\<lparr>image_f := None, shotType := sType, action := act,
               zoom := Some 100, position := Some ''center center''\<rparr>)"

definition plan_entry :: "FrameData list \<Rightarrow> nat \<Rightarrow> FrameData option" where
  "plan_entry plan i = (if i < length plan then Some (plan ! i) else None)"

definition initialFrames :: "FrameData list \<Rightarrow> Frame list \<Rightarrow> Frame list" where
  "initialFrames plan fs = map (\<lambda>i. planned_frame (plan_entry plan i) (fs ! i)) [0..<length fs]"

text \<open>
  Step 2, the rendering loop over the given indices: each frame is rendered to the end
  before the next one starts. \<open>renders i\<close> is the service's answer for frame \<open>i\<close>.
  The pause between two frames is not modelled.
\<close>

fun render_sequence ::
  "nat list \<Rightarrow> Frame list \<Rightarrow> string \<Rightarrow> (nat \<Rightarrow> render_response) \<Rightarrow> App \<Rightarrow> App option" where
  "render_sequence [] fs protocol renders s = Some s"
| "render_sequence (i # is) fs protocol renders s =
     (case performRegeneration i fs protocol None (renders i) s of
        None \<Rightarrow> None
      | Some s' \<Rightarrow> render_sequence is fs protocol renders s')"

text \<open>
  \<open>generateFullStoryboard\<close>. An error of the analysis or of the planning, and an empty
  plan, end in the \<open>catch\<close>: an alert, and the generating flag is cleared.
\<close>

definition generation_failed :: "exn \<Rightarrow> App \<Rightarrow> App" where
  "generation_failed e s = s\<lparr>alerts := alerts s @ [AlertGenerationFailed e], isGenerating := False\<rparr>"

definition generateFullStoryboard ::
  "analysis_response \<Rightarrow> plan_response \<Rightarrow> (nat \<Rightarrow> render_response) \<Rightarrow> App \<Rightarrow> App option" where
  "generateFullStoryboard analysis planning renders s =
     (if sceneDesc s = '''' then Some (s\<lparr>alerts := alerts s @ [AlertEnterScene]\<rparr>)
      else
        (case runAnalysisIfNeeded analysis (s\<lparr>isGenerating := True\<rparr>) of
           (Inl e, s1) \<Rightarrow> Some (generation_failed e s1)
         | (Inr protocol, s1) \<Rightarrow>
             (case planStoryboardSequence planning of
                Inl e \<Rightarrow> Some (generation_failed e s1)
              | Inr plan \<Rightarrow>
                  if plan = [] then Some (generation_failed (Error PlanningFailed) s1)
                  else
                    (let fs = initialFrames plan (frames s);
                         s2 = s1\<lparr>frames := fs, isGenerating := False\<rparr>
                     in render_sequence [0..<length fs] fs protocol renders s2))))"

subsection \<open>A state for the closed examples\<close>

text \<open>
  The initial state of the component after one reference image has been uploaded, a
  scene description typed and a protocol computed.
\<close>

abbreviation example_asset :: VisualAsset where
  "example_asset \<equiv>
     \<lparr>asset_id = ''id1'', asset_data = ''data:image/png;base64,AAAA'',
      asset_type = AssetOther, asset_label = ''a.png''\<rparr>"

abbreviation example_App :: App where
  "example_App \<equiv>
     initial_App\<lparr>assets := [example_asset], sceneDesc := ''A chase at night'',
                 productionProtocol := ''PROTOCOL''\<rparr>"

section \<open>Properties of the crop and viewport model\<close>

subsection \<open>Digits, numerals and tokens\<close>

lemma digit_char_props:
  assumes "d < 10"
  shows "is_digit (digit_char d)" "digit_val (digit_char d) = d"
proof -
  have o: "(of_char (digit_char d) :: nat) = 48 + d"
    using assms by (simp add: digit_char_def)
  show "is_digit (digit_char d)" using assms o by (simp add: is_digit_def)
  show "digit_val (digit_char d) = d" using o by (simp add: digit_val_def)
qed

lemma is_digit_neq: "is_digit c \<Longrightarrow> c \<noteq> CHR ''-'' \<and> c \<noteq> CHR ''+'' \<and> c \<noteq> CHR ''I'' \<and> c \<noteq> CHR '' '' \<and> c \<noteq> CHR ''%'' \<and> c \<noteq> CHR ''.'' \<and> \<not> is_white_space c"
  by (auto simp: is_digit_def is_white_space_def)

lemma decimal_digits_all: "\<forall>c \<in> set (decimal_digits n). is_digit c"
proof (induction n rule: decimal_digits.induct)
  case (1 n)
  show ?case
  proof (cases "n < 10")
    case True
    then show ?thesis by (simp add: decimal_digits.simps [of n] digit_char_props)
  next
    case False
    have "n mod 10 < 10" by simp
    with False 1 show ?thesis
      by (simp add: decimal_digits.simps [of n] digit_char_props)
  qed
qed

lemma decimal_digits_nonempty: "decimal_digits n \<noteq> []"
  by (simp add: decimal_digits.simps [of n])

lemma digits_value_Nil: "digits_value [] = 0"
  by (simp add: digits_value_def)

lemma digits_value_snoc: "digits_value (ds @ [c]) = 10 * digits_value ds + digit_val c"
  by (simp add: digits_value_def)

lemma digits_value_decimal: "digits_value (decimal_digits n) = n"
proof (induction n rule: decimal_digits.induct)
  case (1 n)
  show ?case
  proof (cases "n < 10")
    case True
    then show ?thesis
      by (simp add: decimal_digits.simps [of n] digits_value_def digit_char_props)
  next
    case False
    have m: "n mod 10 < 10" by simp
    from False 1 have "digits_value (decimal_digits (n div 10)) = n div 10" by simp
    with False m show ?thesis
      by (simp add: decimal_digits.simps [of n] digits_value_snoc digit_char_props)
  qed
qed


lemma takeWhile_digits:
  assumes "\<forall>c \<in> set ds. is_digit c" "r = [] \<or> \<not> is_digit (hd r)"
  shows "takeWhile is_digit (ds @ r) = ds" "dropWhile is_digit (ds @ r) = r"
proof -
  have t: "takeWhile is_digit r = []" and d: "dropWhile is_digit r = r"
    using assms(2) by (cases r; simp)+
  show "takeWhile is_digit (ds @ r) = ds"
    using assms(1) t by (simp add: takeWhile_append2)
  show "dropWhile is_digit (ds @ r) = r"
    using assms(1) d by (simp add: dropWhile_append2)
qed

lemma digits_prefix_plain:
  assumes "ds \<noteq> []" "\<forall>c \<in> set ds. is_digit c"
  shows "strip_sign (dropWhile is_white_space (ds @ r)) = (False, ds @ r)"
    and "take 8 (ds @ r) \<noteq> ''Infinity''"
proof -
  obtain c cs where ds: "ds = c # cs" using assms(1) by (cases ds) auto
  then have c: "is_digit c" using assms(2) by simp
  show "strip_sign (dropWhile is_white_space (ds @ r)) = (False, ds @ r)"
    using is_digit_neq [OF c] by (simp add: ds)
  show "take 8 (ds @ r) \<noteq> ''Infinity''"
    using is_digit_neq [OF c] by (simp add: ds)
qed

lemma exponent_factor_percent: "exponent_factor (CHR ''%'' # r) = 1"
  by (simp add: exponent_factor_def)

text \<open>An unsigned integer numeral followed by a percent sign.\<close>

lemma parseFloat_digits_percent:
  assumes "ds \<noteq> []" "\<forall>c \<in> set ds. is_digit c"
  shows "parseFloat (ds @ CHR ''%'' # r) = Num (real (digits_value ds))"
proof -
  have nd: "\<not> is_digit (CHR ''%'')" by (simp add: is_digit_def)
  have tw: "takeWhile is_digit (ds @ CHR ''%'' # r) = ds"
    and dw: "dropWhile is_digit (ds @ CHR ''%'' # r) = CHR ''%'' # r"
    using takeWhile_digits [OF assms(2), of "CHR ''%'' # r"] nd by simp_all
  show ?thesis
    unfolding parseFloat_def
    using digits_prefix_plain [OF assms, of "CHR ''%'' # r"] assms(1)
    by (simp add: tw dw exponent_factor_percent digits_value_Nil)
qed

lemma parseFloat_minus_digits_percent:
  assumes "ds \<noteq> []" "\<forall>c \<in> set ds. is_digit c"
  shows "parseFloat (CHR ''-'' # ds @ CHR ''%'' # r) = Num (- real (digits_value ds))"
proof -
  have nd: "\<not> is_digit (CHR ''%'')" by (simp add: is_digit_def)
  have tw: "takeWhile is_digit (ds @ CHR ''%'' # r) = ds"
    and dw: "dropWhile is_digit (ds @ CHR ''%'' # r) = CHR ''%'' # r"
    using takeWhile_digits [OF assms(2), of "CHR ''%'' # r"] nd by simp_all
  have ws: "\<not> is_white_space (CHR ''-'')" by (simp add: is_white_space_def)
  show ?thesis
    unfolding parseFloat_def
    using digits_prefix_plain(2) [OF assms, of "CHR ''%'' # r"] assms(1) ws
    by (simp add: tw dw exponent_factor_percent digits_value_Nil)
qed


lemma split_no_sep: "d \<notin> set a \<Longrightarrow> split d a = [a]"
  by (induction a) auto

lemma split_prefix: "d \<notin> set a \<Longrightarrow> split d (a @ d # r) = a # split d r"
proof (induction a)
  case Nil
  then show ?case by simp
next
  case (Cons c a)
  then show ?case by (cases "split d r") auto
qed

lemma split_nonempty: "split d s \<noteq> []"
  by (induction s) (auto split: list.splits)


lemma is_digit_val_less: "is_digit c \<Longrightarrow> digit_val c < 10"
  by (auto simp: is_digit_def digit_val_def)








lemma endsWith_percent: "endsWith (s @ ''%'') ''%''"
  by (simp add: endsWith_def)

lemma percent_token_not_property:
  assumes "endsWith p ''%''"
  shows "get_property keyword_map p = Undefined"
proof -
  have "p \<notin> set (map fst keyword_map)" and "p \<notin> set object_prototype_keys"
    using assms by (auto simp: endsWith_def keyword_map_def object_prototype_keys_def)
  then show ?thesis
    by (simp add: get_property_def map_of_eq_None_iff [THEN iffD2])
qed

lemma parse_percent: "endsWith p ''%'' \<Longrightarrow> parse p = Number (parseFloat p)"
  by (simp add: parse_def percent_token_not_property)



lemma parsePosition_examples:
  "parsePosition ''left top'' = (Number (Num 0), Number (Num 0))"
  "parsePosition ''center'' = (Number (Num 50), Number (Num 50))"
  "parsePosition ''30% 70%'' = (Number (Num 30), Number (Num 70))"
  by code_simp+

text \<open>
  The rule of \<open>parse\<close> for a token that is neither an own key of the keyword table nor
  a member of \<open>Object.prototype\<close>: its number when it ends in a percent sign, 50
  otherwise. A missing or empty second token stands for \<open>center\<close>.
\<close>

lemma parse_keywords:
  "parse ''left'' = Number (Num 0)" "parse ''center'' = Number (Num 50)"
  "parse ''right'' = Number (Num 100)" "parse ''top'' = Number (Num 0)"
  "parse ''bottom'' = Number (Num 100)"
  by (simp_all add: parse_def get_property_def keyword_map_def)

lemma parse_other_token:
  assumes "p \<notin> set (map fst keyword_map)" "p \<notin> set object_prototype_keys"
  shows "parse p = (if endsWith p ''%'' then Number (parseFloat p) else Number (Num 50))"
  using assms by (simp add: parse_def get_property_def map_of_eq_None_iff [THEN iffD2])

lemma parsePosition_one_token:
  assumes "CHR '' '' \<notin> set a"
  shows "parsePosition a = (parse (if a = [] then ''center'' else a), Number (Num 50))"
  using assms
  by (simp add: parsePosition_def split_no_sep token_or_center_def parse_keywords)

lemma endsWith_percent_iff: "endsWith p ''%'' \<longleftrightarrow> p \<noteq> [] \<and> last p = CHR ''%''"
  by (cases p rule: rev_cases) (simp_all add: endsWith_def)

text \<open>
  \<open>parse\<close> follows the rule of the specification on every token that is not the name
  of a member of \<open>Object.prototype\<close>.
\<close>

lemma parse_token_spec:
  assumes "t \<notin> set object_prototype_keys"
  shows "parse (if t = [] then ''center'' else t) = Number (parseAnchor_token t)"
proof (cases "t \<in> set (map fst keyword_map)")
  case True
  then have "t = ''left'' \<or> t = ''center'' \<or> t = ''right'' \<or> t = ''top'' \<or> t = ''bottom''"
    by (simp add: keyword_map_def)
  then show ?thesis
    by (elim disjE) (simp_all add: parse_keywords parseAnchor_token_def)
next
  case False
  then have k: "t \<noteq> ''left''" "t \<noteq> ''center''" "t \<noteq> ''right''" "t \<noteq> ''top''" "t \<noteq> ''bottom''"
    by (auto simp: keyword_map_def)
  show ?thesis
  proof (cases "t = []")
    case True
    then show ?thesis by (simp add: parse_keywords parseAnchor_token_def)
  next
    case ne: False
    have "parse t = (if endsWith t ''%'' then Number (parseFloat t) else Number (Num 50))"
      by (rule parse_other_token [OF False assms])
    then show ?thesis
      using ne k by (simp add: endsWith_percent_iff parseAnchor_token_def)
  qed
qed

lemma token_or_center_Cons:
  "token_or_center (a # ps) 0 = (if a = [] then ''center'' else a)"
  "token_or_center (a # b # ps) (Suc 0) = (if b = [] then ''center'' else b)"
  "token_or_center [a] (Suc 0) = ''center''"
  by (simp_all add: token_or_center_def)

text \<open>
  A token that names a member of \<open>Object.prototype\<close> is outside the rule: the lookup
  in the keyword table finds the inherited member.
\<close>

lemma parse_prototype_member:
  "parsePosition ''constructor'' = (PrototypeMember ''constructor'', Number (Num 50))"
  by code_simp

text \<open>
  No position string of the application has such a token. \<open>parsePosition\<close> is called
  with the position of a frame only, and that is the initial \<open>center 20%\<close>, the
  position of a preset, the default \<open>center center\<close>, or a string written by the drag
  handler, whose two tokens end in a percent sign.
\<close>

lemma preset_positions_tokens:
  "\<forall>kp \<in> set SHOT_TYPE_PRESETS. \<forall>t \<in> set (split (CHR '' '') (preset_position (snd kp))).
     t \<notin> set object_prototype_keys"
  by (simp add: SHOT_TYPE_PRESETS_def object_prototype_keys_def)

lemma written_positions_tokens:
  "\<forall>t \<in> set (split (CHR '' '') ''center 20%''). t \<notin> set object_prototype_keys"
  "\<forall>t \<in> set (split (CHR '' '') ''center center''). t \<notin> set object_prototype_keys"
  "(a @ ''%'') \<notin> set object_prototype_keys"
  by (simp_all add: object_prototype_keys_def)

subsection \<open>The claims\<close>

text \<open>
  Claim C5. For every zoom in [100, 350] and every anchor with both coordinates in
  [0, 100], the crop rectangle with width = height = 100 / (zoom / 100),
  left = x * (1 - width / 100) and top = y * (1 - height / 100) has left and top at
  least 0 and left + width and top + height at most 100; at zoom 100 it is the whole
  image, whatever the anchor. (Exact arithmetic: the rounding of doubles is outside.)
\<close>

theorem crop_rect_within_bounds:
  assumes "100 \<le> z" "z \<le> 350" "0 \<le> px" "px \<le> 100" "0 \<le> py" "py \<le> 100"
  shows "cropWidth z = 100 / (z / 100) \<and> cropHeight z = cropWidth z
         \<and> cropLeft z px = px * (1 - cropWidth z / 100)
         \<and> cropTop z py = py * (1 - cropHeight z / 100)
         \<and> 0 \<le> cropLeft z px \<and> 0 \<le> cropTop z py
         \<and> cropLeft z px + cropWidth z \<le> 100
         \<and> cropTop z py + cropHeight z \<le> 100
         \<and> (z = 100 \<longrightarrow> cropWidth z = 100 \<and> cropHeight z = 100
                          \<and> cropLeft z px = 0 \<and> cropTop z py = 0)"
proof -
  have zp: "0 < z" using assms(1) by simp
  have w: "cropWidth z = 10000 / z" by (simp add: cropWidth_def)
  have f: "0 \<le> 1 - 100 / z" and f1: "1 - 100 / z \<le> 1"
    using assms(1) zp by (simp_all add: field_simps)
  have bound: "t * (1 - 100 / z) + 10000 / z \<le> 100" if "t \<le> 100" for t
  proof -
    have "t * (1 - 100 / z) \<le> 100 * (1 - 100 / z)"
      using that f by (rule mult_right_mono)
    also have "100 * (1 - 100 / z) + 10000 / z = 100"
      using zp by (simp add: field_simps)
    finally show ?thesis by simp
  qed
  have l: "cropLeft z px = px * (1 - 100 / z)" and t: "cropTop z py = py * (1 - 100 / z)"
    by (simp_all add: cropLeft_def cropTop_def cropWidth_def cropHeight_def)
  have "0 \<le> cropLeft z px" "0 \<le> cropTop z py"
    using assms(3,5) f by (simp_all add: l t)
  moreover have "cropLeft z px + cropWidth z \<le> 100" "cropTop z py + cropHeight z \<le> 100"
    using bound [OF assms(4)] bound [OF assms(6)]
    by (simp_all add: l t cropWidth_def cropHeight_def)
  moreover have "z = 100 \<longrightarrow> cropWidth z = 100 \<and> cropHeight z = 100
                          \<and> cropLeft z px = 0 \<and> cropTop z py = 0"
    by (simp add: cropLeft_def cropTop_def cropWidth_def cropHeight_def)
  ultimately show ?thesis
    by (simp add: cropLeft_def cropTop_def cropWidth_def cropHeight_def)
qed

theorem crop_rect_within_bounds_witness:
  "cropWidth 100 = 100 \<and> cropHeight 100 = 100 \<and> cropLeft 100 30 = 0 \<and> cropTop 100 70 = 0
   \<and> cropLeft 100 30 + cropWidth 100 \<le> 100 \<and> cropTop 100 70 + cropHeight 100 \<le> 100
   \<and> 0 \<le> cropLeft 350 100 \<and> cropLeft 350 100 + cropWidth 350 \<le> 100
   \<and> 0 \<le> cropTop 350 0 \<and> cropTop 350 0 + cropHeight 350 \<le> 100"
  using crop_rect_within_bounds [of 100 30 70] crop_rect_within_bounds [of 350 100 0] by simp

text \<open>
  Claim C6. \<open>parsePosition\<close> splits the position string at the spaces and gives each
  of the first two tokens its value by the rule of the specification: left 0, center
  50, right 100, top 0, bottom 100; the number read from a token that ends in a
  percent sign (the decimal numeral of \<open>n\<close> followed by a percent sign gives \<open>n\<close>);
  50 for any other token and for an empty one. Without a second token the second
  coordinate is 50, and tokens after the second are not read. This holds for every
  string whose first two tokens are not names of members of \<open>Object.prototype\<close>, and
  so for every position string of the application. The three examples of the claim
  are part of the statement.
\<close>

theorem parsePosition_token_rule:
  assumes "CHR '' '' \<notin> set a" "CHR '' '' \<notin> set b"
    "a \<notin> set object_prototype_keys" "b \<notin> set object_prototype_keys"
  shows "parsePosition a = (Number (parseAnchor_token a), Number (Num 50))
         \<and> parsePosition (a @ '' '' @ b) = (Number (parseAnchor_token a), Number (parseAnchor_token b))
         \<and> parsePosition (a @ '' '' @ b @ '' '' @ r) = (Number (parseAnchor_token a), Number (parseAnchor_token b))
         \<and> parseAnchor_token (decimal_digits n @ ''%'') = Num (real n)
         \<and> parsePosition ''left top'' = (Number (Num 0), Number (Num 0))
         \<and> parsePosition ''center'' = (Number (Num 50), Number (Num 50))
         \<and> parsePosition ''30% 70%'' = (Number (Num 30), Number (Num 70))"
proof -
  have ne: "decimal_digits n @ ''%'' \<noteq> k" if "last k \<noteq> CHR ''%''" for k
    using that by (cases k rule: rev_cases) auto
  have "parseFloat (decimal_digits n @ ''%'') = Num (real n)"
    using parseFloat_digits_percent [OF decimal_digits_nonempty decimal_digits_all, of n "[]"]
    by (simp add: digits_value_decimal)
  then have c4: "parseAnchor_token (decimal_digits n @ ''%'') = Num (real n)"
    unfolding parseAnchor_token_def by (simp add: ne)
  have s1: "split (CHR '' '') a = [a]"
    using assms(1) by (rule split_no_sep)
  have s2: "split (CHR '' '') (a @ CHR '' '' # b) = [a, b]"
    using assms(1,2) by (simp add: split_prefix split_no_sep)
  have s3: "split (CHR '' '') (a @ CHR '' '' # b @ CHR '' '' # r) = a # b # split (CHR '' '') r"
    using assms(1,2) by (simp add: split_prefix)
  have pa: "parse (if a = [] then ''center'' else a) = Number (parseAnchor_token a)"
    by (rule parse_token_spec [OF assms(3)])
  have pb: "parse (if b = [] then ''center'' else b) = Number (parseAnchor_token b)"
    by (rule parse_token_spec [OF assms(4)])
  have c1: "parsePosition a = (Number (parseAnchor_token a), Number (Num 50))"
    by (simp add: parsePosition_def s1 token_or_center_Cons pa parse_keywords del: split.simps)
  have c2: "parsePosition (a @ '' '' @ b) = (Number (parseAnchor_token a), Number (parseAnchor_token b))"
    using s2 by (simp add: parsePosition_def token_or_center_Cons pa pb del: split.simps)
  have c3: "parsePosition (a @ '' '' @ b @ '' '' @ r) = (Number (parseAnchor_token a), Number (parseAnchor_token b))"
    using s3 by (simp add: parsePosition_def token_or_center_Cons pa pb del: split.simps)
  show ?thesis
    using c1 c2 c3 c4 parsePosition_examples by (intro conjI)
qed

theorem parsePosition_token_rule_witness:
  "parsePosition ''right'' = (Number (Num 100), Number (Num 50))
   \<and> parsePosition ''right bottom'' = (Number (Num 100), Number (Num 100))
   \<and> parsePosition ''20% center'' = (Number (Num 20), Number (Num 50))
   \<and> parsePosition ''12.5% up'' = (Number (Num (25 / 2)), Number (Num 50))
   \<and> parsePosition ''center 15% 80%'' = (Number (Num 50), Number (Num 15))"
proof -
  have k: "''right'' \<notin> set object_prototype_keys" "''bottom'' \<notin> set object_prototype_keys"
    "''20%'' \<notin> set object_prototype_keys" "''center'' \<notin> set object_prototype_keys"
    "''12.5%'' \<notin> set object_prototype_keys" "''up'' \<notin> set object_prototype_keys"
    "''15%'' \<notin> set object_prototype_keys"
    by (simp_all add: object_prototype_keys_def)
  have v: "parseAnchor_token ''right'' = Num 100" "parseAnchor_token ''bottom'' = Num 100"
    "parseAnchor_token ''center'' = Num 50" "parseAnchor_token ''up'' = Num 50"
    by (simp_all add: parseAnchor_token_def)
  have p: "parseAnchor_token ''20%'' = Num 20" "parseAnchor_token ''12.5%'' = Num (25 / 2)"
    "parseAnchor_token ''15%'' = Num 15"
    by code_simp+
  have "parsePosition ''right'' = (Number (Num 100), Number (Num 50))"
    "parsePosition ''right bottom'' = (Number (Num 100), Number (Num 100))"
    using parsePosition_token_rule [of "''right''" "''bottom''" "[]", OF _ _ k(1,2)]
    by (simp_all add: v)
  moreover have "parsePosition ''20% center'' = (Number (Num 20), Number (Num 50))"
    using parsePosition_token_rule [of "''20%''" "''center''" "[]", OF _ _ k(3,4)]
    by (simp add: v p)
  moreover have "parsePosition ''12.5% up'' = (Number (Num (25 / 2)), Number (Num 50))"
    using parsePosition_token_rule [of "''12.5%''" "''up''" "[]", OF _ _ k(5,6)]
    by (simp add: v p)
  moreover have "parsePosition ''center 15% 80%'' = (Number (Num 50), Number (Num 15))"
    using parsePosition_token_rule [of "''center''" "''15%''" "''80%''", OF _ _ k(4,7)]
    by (simp add: v p)
  ultimately show ?thesis by (intro conjI)
qed

text \<open>
  Claim C10. \<open>parsePosition\<close> does not clamp percentages: a token that ends in a
  percent sign is given the value that \<open>parseFloat\<close> reads from it; the decimal
  numeral of any natural number \<open>n\<close> followed by a percent sign gives \<open>n\<close>, with a
  minus sign in front \<open>- n\<close>; and \<open>150% -20%\<close> gives the anchor (150, -20), outside
  [0, 100] on both axes.
\<close>

theorem parsePosition_no_clamp:
  "(\<forall>p. endsWith p ''%'' \<longrightarrow> parse p = Number (parseFloat p))
   \<and> (\<forall>n. parse (decimal_digits n @ ''%'') = Number (Num (real n)))
   \<and> (\<forall>n. parse (''-'' @ decimal_digits n @ ''%'') = Number (Num (- real n)))
   \<and> parsePosition ''150% -20%'' = (Number (Num 150), Number (Num (- 20)))"
proof -
  have a: "parse (decimal_digits n @ ''%'') = Number (Num (real n))" for n
    using parseFloat_digits_percent [OF decimal_digits_nonempty decimal_digits_all, of n "[]"]
    by (simp add: parse_percent endsWith_percent digits_value_decimal)
  have "endsWith (''-'' @ decimal_digits n @ ''%'') ''%''" for n
    using endsWith_percent [of "''-'' @ decimal_digits n"] by simp
  then have b: "parse (''-'' @ decimal_digits n @ ''%'') = Number (Num (- real n))" for n
    using parseFloat_minus_digits_percent [OF decimal_digits_nonempty decimal_digits_all, of n "[]"]
    by (simp add: parse_percent digits_value_decimal)
  have c: "parsePosition ''150% -20%'' = (Number (Num 150), Number (Num (- 20)))"
    by code_simp
  show ?thesis using a b c by (simp add: parse_percent)
qed

theorem parsePosition_no_clamp_witness:
  "endsWith ''150%'' ''%'' \<and> parse ''150%'' = Number (parseFloat ''150%'')
   \<and> parseFloat ''150%'' = Num 150"
proof -
  have e: "endsWith ''150%'' ''%''" by (simp add: endsWith_def)
  have "parseFloat ''150%'' = Num 150" by code_simp
  with e parsePosition_no_clamp show ?thesis by blast
qed




section \<open>Properties of the shot sequence controller\<close>

subsection \<open>Assets and protocol\<close>

lemma reader_onload_protocol:
  "productionProtocol (reader_onload new_id file s) = productionProtocol s"
  by (simp add: reader_onload_def split: option.splits)

lemma handleAssetUpload_protocol:
  "productionProtocol (handleAssetUpload files s) = productionProtocol s"
  unfolding handleAssetUpload_def
  by (induction files arbitrary: s) (simp_all add: reader_onload_protocol split: prod.splits)

lemma removeAsset_protocol: "productionProtocol (removeAsset rid s) = ''''"
  by (simp add: removeAsset_def)

lemma runAnalysis_cached:
  "productionProtocol s \<noteq> '''' \<Longrightarrow> runAnalysisIfNeeded response s = (Inr (productionProtocol s), s)"
  by (simp add: runAnalysisIfNeeded_def)

lemma runAnalysis_fresh:
  assumes "productionProtocol s = ''''" "assets s \<noteq> []"
  shows "analyzeCalls (snd (runAnalysisIfNeeded response s)) = analyzeCalls s + 1"
  using assms
  by (simp add: runAnalysisIfNeeded_def Let_def split: sum.splits)

lemma removeAsset_forces_analysis:
  assumes "assets (removeAsset rid s) \<noteq> []"
  shows "analyzeCalls (snd (runAnalysisIfNeeded response (removeAsset rid s))) = analyzeCalls s + 1"
  using runAnalysis_fresh [OF removeAsset_protocol assms, of response]
  by (simp add: removeAsset_def)

lemma analyze_nonempty: "analyzeProductionAssets as response = Inr p \<Longrightarrow> p \<noteq> ''''"
  by (auto simp: analyzeProductionAssets_def split: if_splits sum.splits option.splits)

text \<open>What a successful \<open>runAnalysisIfNeeded\<close> leaves as it was.\<close>

lemma runAnalysis_Inr:
  assumes "runAnalysisIfNeeded response s = (Inr p, s1)"
  shows "p \<noteq> ''''" "frames s1 = frames s" "alerts s1 = alerts s" "assets s1 = assets s"
    "targetResolution s1 = targetResolution s" "console_errors s1 = console_errors s"
    "rendersInFlight s1 = rendersInFlight s" "regeneratingIndices s1 = regeneratingIndices s"
    "sceneDesc s1 = sceneDesc s"
  using assms analyze_nonempty [of "assets s" response]
  by (auto simp: runAnalysisIfNeeded_def Let_def split: if_splits sum.splits)

lemma runAnalysis_isGenerating:
  "runAnalysisIfNeeded response (s\<lparr>isGenerating := g\<rparr>)
   = (fst (runAnalysisIfNeeded response s), (snd (runAnalysisIfNeeded response s))\<lparr>isGenerating := g\<rparr>)"
  by (simp add: runAnalysisIfNeeded_def Let_def split: sum.splits)

subsection \<open>Rendering one frame\<close>

lemma start_issues_call:
  assumes "p \<noteq> '''' \<or> assets s \<noteq> []" "i < length cf"
  shows "performRegeneration_start i cf p s
         = (True, s\<lparr>regeneratingIndices := (regeneratingIndices s)(i \<mapsto> True),
                     rendersInFlight := rendersInFlight s @ [i]\<rparr>)"
  using assms by (auto simp: performRegeneration_start_def Let_def)

lemma remove1_snoc_fresh: "i \<notin> set xs \<Longrightarrow> remove1 i (xs @ [i]) = xs"
  by (induction xs) auto

text \<open>
  A complete render of an existing frame: the state afterwards, field by field.
\<close>

lemma performRegeneration_fields:
  assumes "p \<noteq> '''' \<or> assets s \<noteq> []" "i < length cf" "i < length (frames s)"
  shows "\<exists>s'. performRegeneration i cf p res response s = Some s'
           \<and> assets s' = assets s \<and> alerts s' = alerts s
           \<and> targetResolution s' = targetResolution s
           \<and> productionProtocol s' = productionProtocol s
           \<and> regeneratingIndices s' = (regeneratingIndices s)(i \<mapsto> False)
           \<and> (i \<notin> set (rendersInFlight s) \<longrightarrow> rendersInFlight s' = rendersInFlight s)
           \<and> frames s' =
               (case generateCinemaFrame (case res of Some r \<Rightarrow> r | None \<Rightarrow> targetResolution s) response of
                  Inr newImage \<Rightarrow> (frames s)[i := (frames s ! i)\<lparr>image_f := Some newImage\<rparr>]
                | Inl e \<Rightarrow> frames s)
           \<and> console_errors s' =
               (case generateCinemaFrame (case res of Some r \<Rightarrow> r | None \<Rightarrow> targetResolution s) response of
                  Inr newImage \<Rightarrow> console_errors s
                | Inl e \<Rightarrow> console_errors s @ [(i, e)])"
  using assms
  by (simp add: performRegeneration_def start_issues_call performRegeneration_resolve_def Let_def
        remove1_snoc_fresh split: sum.splits)

subsection \<open>The planned frames\<close>

lemma length_initialFrames: "length (initialFrames plan fs) = length fs"
  by (simp add: initialFrames_def)

lemma nth_initialFrames:
  "i < length fs \<Longrightarrow> initialFrames plan fs ! i = planned_frame (plan_entry plan i) (fs ! i)"
  by (simp add: initialFrames_def)

lemma planned_frame_image: "image_f (planned_frame entry f) = None"
  by (simp add: planned_frame_def Let_def split: property.splits)


lemma planned_frame_preset:
  assumes "fd_shotType p = Some t" "map_of SHOT_TYPE_PRESETS t = Some preset"
  shows "shotType (planned_frame (Some p) f) = t"
    and "zoom (planned_frame (Some p) f) = Some (preset_zoom preset)"
    and "position (planned_frame (Some p) f) = Some (preset_position preset)"
proof -
  have "t \<noteq> []" using assms(2) by (auto simp: SHOT_TYPE_PRESETS_def)
  then show "shotType (planned_frame (Some p) f) = t"
    and "zoom (planned_frame (Some p) f) = Some (preset_zoom preset)"
    and "position (planned_frame (Some p) f) = Some (preset_position preset)"
    using assms by (simp_all add: planned_frame_def text_or_def get_property_def)
qed




subsection \<open>The rendering loop\<close>

text \<open>
  The loop over distinct existing indices always ends, shows no alert, and leaves in
  each frame of the list the image of its own render, whatever happened to the others.
\<close>

lemma render_sequence_fields:
  assumes "p \<noteq> '''' \<or> assets s \<noteq> []" "\<forall>i \<in> set is. i < length cf \<and> i < length (frames s)"
    "distinct is"
  shows "\<exists>s'. render_sequence is cf p renders s = Some s'
           \<and> assets s' = assets s \<and> alerts s' = alerts s
           \<and> targetResolution s' = targetResolution s
           \<and> length (frames s') = length (frames s)
           \<and> (\<forall>j < length (frames s). frames s' ! j =
                 (if j \<in> set is
                  then (case generateCinemaFrame (targetResolution s) (renders j) of
                          Inr newImage \<Rightarrow> (frames s ! j)\<lparr>image_f := Some newImage\<rparr>
                        | Inl e \<Rightarrow> frames s ! j)
                  else frames s ! j))"
  using assms
proof (induction "is" arbitrary: s)
  case Nil
  then show ?case by simp
next
  case (Cons i "is")
  have i: "i < length cf" "i < length (frames s)" using Cons.prems(2) by simp_all
  obtain s1 where s1: "performRegeneration i cf p None (renders i) s = Some s1"
    and a1: "assets s1 = assets s" and al1: "alerts s1 = alerts s"
    and t1: "targetResolution s1 = targetResolution s"
    and f1: "frames s1 =
               (case generateCinemaFrame (targetResolution s) (renders i) of
                  Inr newImage \<Rightarrow> (frames s)[i := (frames s ! i)\<lparr>image_f := Some newImage\<rparr>]
                | Inl e \<Rightarrow> frames s)"
    using performRegeneration_fields [OF Cons.prems(1) i, of None "renders i"] by auto
  have l1: "length (frames s1) = length (frames s)"
    by (simp add: f1 split: sum.splits)
  have g: "p \<noteq> '''' \<or> assets s1 \<noteq> []" using Cons.prems(1) a1 by simp
  have r: "\<forall>k \<in> set is. k < length cf \<and> k < length (frames s1)"
    using Cons.prems(2) l1 by simp
  have d: "distinct is" and ni: "i \<notin> set is" using Cons.prems(3) by simp_all
  obtain s' where s': "render_sequence is cf p renders s1 = Some s'"
    and a': "assets s' = assets s1" and al': "alerts s' = alerts s1"
    and t': "targetResolution s' = targetResolution s1"
    and l': "length (frames s') = length (frames s1)"
    and f': "\<forall>j < length (frames s1). frames s' ! j =
                 (if j \<in> set is
                  then (case generateCinemaFrame (targetResolution s1) (renders j) of
                          Inr newImage \<Rightarrow> (frames s1 ! j)\<lparr>image_f := Some newImage\<rparr>
                        | Inl e \<Rightarrow> frames s1 ! j)
                  else frames s1 ! j)"
    using Cons.IH [OF g r d] by auto
  have other: "frames s1 ! j = frames s ! j" if "j \<noteq> i" for j
    using that by (simp add: f1 split: sum.splits)
  have own: "frames s1 ! i =
               (case generateCinemaFrame (targetResolution s) (renders i) of
                  Inr newImage \<Rightarrow> (frames s ! i)\<lparr>image_f := Some newImage\<rparr>
                | Inl e \<Rightarrow> frames s ! i)"
    using i(2) by (simp add: f1 split: sum.splits)
  have "frames s' ! j =
          (if j \<in> set (i # is)
           then (case generateCinemaFrame (targetResolution s) (renders j) of
                   Inr newImage \<Rightarrow> (frames s ! j)\<lparr>image_f := Some newImage\<rparr>
                 | Inl e \<Rightarrow> frames s ! j)
           else frames s ! j)" if j: "j < length (frames s)" for j
  proof (cases "j = i")
    case True
    have "frames s' ! i = frames s1 ! i"
      using f' [rule_format, of i] i(2) l1 ni by simp
    then show ?thesis unfolding True using own by simp
  next
    case False
    then show ?thesis
      using f' [rule_format, of j] j l1 other [OF False] t1 by (simp split: sum.splits)
  qed
  then show ?case
    using s1 s' a1 a' al1 al' t1 t' l1 l' by simp
qed

text \<open>The failures of the loop are logged in the order of the frames, one entry each.\<close>

lemma render_sequence_console:
  assumes "p \<noteq> '''' \<or> assets s \<noteq> []" "\<forall>i \<in> set is. i < length cf \<and> i < length (frames s)"
  shows "\<exists>s'. render_sequence is cf p renders s = Some s'
           \<and> console_errors s' = console_errors s @
               concat (map (\<lambda>i. case generateCinemaFrame (targetResolution s) (renders i) of
                                   Inl e \<Rightarrow> [(i, e)] | Inr newImage \<Rightarrow> []) is)"
  using assms
proof (induction "is" arbitrary: s)
  case Nil
  then show ?case by simp
next
  case (Cons i "is")
  have i: "i < length cf" "i < length (frames s)" using Cons.prems(2) by simp_all
  obtain s1 where s1: "performRegeneration i cf p None (renders i) s = Some s1"
    and a1: "assets s1 = assets s" and t1: "targetResolution s1 = targetResolution s"
    and f1: "frames s1 =
               (case generateCinemaFrame (targetResolution s) (renders i) of
                  Inr newImage \<Rightarrow> (frames s)[i := (frames s ! i)\<lparr>image_f := Some newImage\<rparr>]
                | Inl e \<Rightarrow> frames s)"
    and c1: "console_errors s1 =
               (case generateCinemaFrame (targetResolution s) (renders i) of
                  Inr newImage \<Rightarrow> console_errors s
                | Inl e \<Rightarrow> console_errors s @ [(i, e)])"
    using performRegeneration_fields [OF Cons.prems(1) i, of None "renders i"] by auto
  have l1: "length (frames s1) = length (frames s)"
    by (simp add: f1 split: sum.splits)
  have g: "p \<noteq> '''' \<or> assets s1 \<noteq> []" using Cons.prems(1) a1 by simp
  have r: "\<forall>k \<in> set is. k < length cf \<and> k < length (frames s1)"
    using Cons.prems(2) l1 by simp
  obtain s' where s': "render_sequence is cf p renders s1 = Some s'"
    and c': "console_errors s' = console_errors s1 @
               concat (map (\<lambda>i. case generateCinemaFrame (targetResolution s1) (renders i) of
                                   Inl e \<Rightarrow> [(i, e)] | Inr newImage \<Rightarrow> []) is)"
    using Cons.IH [OF g r] by auto
  show ?case
    using s1 s' by (simp add: c' c1 t1 split: sum.splits)
qed

subsection \<open>Generating the whole storyboard\<close>



lemma generateFullStoryboard_planned:
  assumes "sceneDesc s \<noteq> ''''" "fst (runAnalysisIfNeeded analysis s) = Inr protocol"
    "planStoryboardSequence planning = Inr plan" "plan \<noteq> []"
  shows "\<exists>s'. generateFullStoryboard analysis planning renders s = Some s'
           \<and> alerts s' = alerts s
           \<and> length (frames s') = length (frames s)
           \<and> (\<forall>j < length (frames s). frames s' ! j =
                 (case generateCinemaFrame (targetResolution s) (renders j) of
                    Inr newImage \<Rightarrow>
                      (planned_frame (plan_entry plan j) (frames s ! j))\<lparr>image_f := Some newImage\<rparr>
                  | Inl e \<Rightarrow> planned_frame (plan_entry plan j) (frames s ! j)))"
proof -
  obtain s1 where r: "runAnalysisIfNeeded analysis s = (Inr protocol, s1)"
    using assms(2) by (cases "runAnalysisIfNeeded analysis s") simp
  note k = runAnalysis_Inr [OF r]
  let ?fs = "initialFrames plan (frames s)"
  let ?s2 = "s1\<lparr>isGenerating := True, frames := ?fs, isGenerating := False\<rparr>"
  have g: "generateFullStoryboard analysis planning renders s
           = render_sequence [0..<length ?fs] ?fs protocol renders ?s2"
    using assms(1,3,4) by (simp add: generateFullStoryboard_def runAnalysis_isGenerating r Let_def)
  have p: "protocol \<noteq> '''' \<or> assets ?s2 \<noteq> []" using k(1) by simp
  have rng: "\<forall>i \<in> set [0..<length ?fs]. i < length ?fs \<and> i < length (frames ?s2)" by simp
  obtain s' where s': "render_sequence [0..<length ?fs] ?fs protocol renders ?s2 = Some s'"
    and al: "alerts s' = alerts ?s2" and l: "length (frames s') = length (frames ?s2)"
    and f: "\<forall>j < length (frames ?s2). frames s' ! j =
                 (if j \<in> set [0..<length ?fs]
                  then (case generateCinemaFrame (targetResolution ?s2) (renders j) of
                          Inr newImage \<Rightarrow> (frames ?s2 ! j)\<lparr>image_f := Some newImage\<rparr>
                        | Inl e \<Rightarrow> frames ?s2 ! j)
                  else frames ?s2 ! j)"
    using render_sequence_fields [OF p rng, of renders] by auto
  have "frames s' ! j =
          (case generateCinemaFrame (targetResolution s) (renders j) of
             Inr newImage \<Rightarrow>
               (planned_frame (plan_entry plan j) (frames s ! j))\<lparr>image_f := Some newImage\<rparr>
           | Inl e \<Rightarrow> planned_frame (plan_entry plan j) (frames s ! j))"
    if j: "j < length (frames s)" for j
    using f [rule_format, of j] j k(5)
    by (simp add: length_initialFrames nth_initialFrames split: sum.splits)
  then show ?thesis
    using g s' al l k(3) by (simp add: length_initialFrames)
qed

lemma generateFullStoryboard_console:
  assumes "sceneDesc s \<noteq> ''''" "fst (runAnalysisIfNeeded analysis s) = Inr protocol"
    "planStoryboardSequence planning = Inr plan" "plan \<noteq> []"
  shows "\<exists>s'. generateFullStoryboard analysis planning renders s = Some s'
           \<and> console_errors s' = console_errors s @
               concat (map (\<lambda>i. case generateCinemaFrame (targetResolution s) (renders i) of
                                   Inl e \<Rightarrow> [(i, e)] | Inr newImage \<Rightarrow> [])
                           [0..<length (frames s)])"
proof -
  obtain s1 where r: "runAnalysisIfNeeded analysis s = (Inr protocol, s1)"
    using assms(2) by (cases "runAnalysisIfNeeded analysis s") simp
  note k = runAnalysis_Inr [OF r]
  let ?fs = "initialFrames plan (frames s)"
  let ?s2 = "s1\<lparr>isGenerating := True, frames := ?fs, isGenerating := False\<rparr>"
  have g: "generateFullStoryboard analysis planning renders s
           = render_sequence [0..<length ?fs] ?fs protocol renders ?s2"
    using assms(1,3,4) by (simp add: generateFullStoryboard_def runAnalysis_isGenerating r Let_def)
  have p: "protocol \<noteq> '''' \<or> assets ?s2 \<noteq> []" using k(1) by simp
  have rng: "\<forall>i \<in> set [0..<length ?fs]. i < length ?fs \<and> i < length (frames ?s2)" by simp
  show ?thesis
    using render_sequence_console [OF p rng, of renders] k(5,6)
    by (simp add: g length_initialFrames)
qed

subsection \<open>Editing a frame\<close>

text \<open>The thirteen shot types of the preset table.\<close>

lemma preset_codes:
  "map fst SHOT_TYPE_PRESETS
   = [''ELS'', ''LS'', ''FS'', ''MS'', ''CU'', ''ECU'', ''POV'', ''OTS'', ''LA'', ''HA'', ''DA'', ''OH'', ''BE'']"
  by (simp add: SHOT_TYPE_PRESETS_def)

lemma apply_preset_own:
  "map_of SHOT_TYPE_PRESETS v = Some preset \<Longrightarrow>
   apply_preset v f = f\<lparr>zoom := Some (preset_zoom preset), position := Some (preset_position preset)\<rparr>"
  by (simp add: apply_preset_def get_property_def)

lemma handleFrameChange_shotType:
  assumes "idx < length (frames s)"
  shows "\<exists>s'. handleFrameChange idx (SetShotType v) s = Inr s'
           \<and> frames s' = (frames s)[idx := apply_preset v ((frames s ! idx)\<lparr>shotType := v\<rparr>)]"
  using assms by (simp add: handleFrameChange_def assign_field_def Let_def)

text \<open>A change of the shot type starts a render call, whatever the flags are.\<close>

lemma handleFrameChange_shotType_render:
  assumes "i < length (frames s)" "productionProtocol s \<noteq> '''' \<or> assets s \<noteq> []"
  shows "\<exists>s'. handleFrameChange i (SetShotType v) s = Inr s'
           \<and> regeneratingIndices s' = (regeneratingIndices s)(i \<mapsto> True)
           \<and> rendersInFlight s' = rendersInFlight s @ [i]"
  using assms
  by (auto simp: handleFrameChange_def Let_def start_issues_call)

subsection \<open>Regenerating one frame on request\<close>

lemma request_issues_call:
  assumes "assets s \<noteq> []" "fst (runAnalysisIfNeeded analysis s) = Inr protocol"
    "i < length (frames s)"
  shows "handleRegenerateFrame_request i analysis s
         = (True, (snd (runAnalysisIfNeeded analysis s))
                    \<lparr>regeneratingIndices := (regeneratingIndices s)(i \<mapsto> True),
                     rendersInFlight := rendersInFlight s @ [i]\<rparr>)"
proof -
  obtain s1 where r: "runAnalysisIfNeeded analysis s = (Inr protocol, s1)"
    using assms(2) by (cases "runAnalysisIfNeeded analysis s") simp
  note k = runAnalysis_Inr [OF r]
  have "performRegeneration_start i (frames s) protocol s1
        = (True, s1\<lparr>regeneratingIndices := (regeneratingIndices s1)(i \<mapsto> True),
                     rendersInFlight := rendersInFlight s1 @ [i]\<rparr>)"
    using k(1) assms(3) by (intro start_issues_call) simp_all
  then show ?thesis
    using assms(1) by (simp add: handleRegenerateFrame_request_def r k)
qed

lemma start_ignores_flags:
  "fst (performRegeneration_start i cf p (s\<lparr>regeneratingIndices := m\<rparr>))
     = fst (performRegeneration_start i cf p s)"
  "rendersInFlight (snd (performRegeneration_start i cf p (s\<lparr>regeneratingIndices := m\<rparr>)))
     = rendersInFlight (snd (performRegeneration_start i cf p s))"
  by (simp_all add: performRegeneration_start_def Let_def)

lemma runAnalysis_flags:
  "runAnalysisIfNeeded analysis (s\<lparr>regeneratingIndices := m\<rparr>)
   = (fst (runAnalysisIfNeeded analysis s),
      (snd (runAnalysisIfNeeded analysis s))\<lparr>regeneratingIndices := m\<rparr>)"
  by (simp add: runAnalysisIfNeeded_def Let_def split: sum.splits)

lemma request_ignores_flags:
  "fst (handleRegenerateFrame_request i analysis (s\<lparr>regeneratingIndices := m\<rparr>))
     = fst (handleRegenerateFrame_request i analysis s)"
  "rendersInFlight (snd (handleRegenerateFrame_request i analysis (s\<lparr>regeneratingIndices := m\<rparr>)))
     = rendersInFlight (snd (handleRegenerateFrame_request i analysis s))"
  by (auto simp: handleRegenerateFrame_request_def runAnalysis_flags start_ignores_flags
      split: prod.splits sum.splits)

lemma count_list_snoc: "count_list (xs @ [i]) j = count_list xs j + (if i = j then 1 else 0)"
  by (induction xs) auto

lemma count_list_remove1:
  "i \<in> set xs \<Longrightarrow> count_list (remove1 i xs) i + 1 = count_list xs i"
  by (induction xs) auto

lemma resolve_clears_flag:
  assumes "performRegeneration_resolve i outcome s = Some s'"
  shows "regeneratingIndices s' i = Some False"
    and "rendersInFlight s' = remove1 i (rendersInFlight s)"
  using assms
  by (auto simp: performRegeneration_resolve_def Let_def split: sum.splits if_splits)

lemma handleRegenerateFrame_failure:
  assumes "assets s \<noteq> []" "fst (runAnalysisIfNeeded analysis s) = Inr protocol"
    "i < length (frames s)" "generateCinemaFrame (targetResolution s) response = Inl e"
  shows "\<exists>s'. handleRegenerateFrame i analysis response s = Some s'
           \<and> alerts s' = alerts s
           \<and> console_errors s' = console_errors s @ [(i, e)]
           \<and> frames s' = frames s
           \<and> regeneratingIndices s' i = Some False"
proof -
  obtain s1 where r: "runAnalysisIfNeeded analysis s = (Inr protocol, s1)"
    using assms(2) by (cases "runAnalysisIfNeeded analysis s") simp
  note k = runAnalysis_Inr [OF r]
  show ?thesis
    using assms(4) k
    by (simp add: handleRegenerateFrame_def request_issues_call [OF assms(1,2,3)] r
          performRegeneration_resolve_def Let_def)
qed

lemma example_App_analysis: "fst (runAnalysisIfNeeded analysis example_App) = Inr ''PROTOCOL''"
  by (simp add: runAnalysisIfNeeded_def)

lemma initial_App_frames:
  "length (frames initial_App) = 27" "i < 27 \<Longrightarrow> frames initial_App ! i = initial_frame"
  "frames initial_App \<noteq> []"
  by (simp_all add: initial_App_def)

subsection \<open>The claims\<close>

text \<open>
  Claim C1. Every change of the asset list, adding as well as removing, clears the
  cached protocol. \<open>removeAsset\<close> does (\<open>removeAsset_protocol\<close>,
  \<open>removeAsset_forces_analysis\<close>); \<open>handleAssetUpload\<close> does not
  (\<open>handleAssetUpload_protocol\<close>): after a second image has been uploaded to the
  example state, the protocol computed for the first image alone is still there, and
  \<open>runAnalysisIfNeeded\<close> returns it without a call of the analysis.
\<close>

theorem asset_upload_keeps_protocol:
  "map asset_id (assets
     (handleAssetUpload
        [(''id2'', \<lparr>file_name = ''b.png'', file_result = Some ''data:image/png;base64,BBBB''\<rparr>)]
        example_App)) = [''id1'', ''id2'']
   \<and> productionProtocol
     (handleAssetUpload
        [(''id2'', \<lparr>file_name = ''b.png'', file_result = Some ''data:image/png;base64,BBBB''\<rparr>)]
        example_App) = ''PROTOCOL''
   \<and> fst (runAnalysisIfNeeded (Inr (Some ''PROTOCOL OF BOTH''))
     (handleAssetUpload
        [(''id2'', \<lparr>file_name = ''b.png'', file_result = Some ''data:image/png;base64,BBBB''\<rparr>)]
        example_App)) = Inr ''PROTOCOL''
   \<and> analyzeCalls (snd (runAnalysisIfNeeded (Inr (Some ''PROTOCOL OF BOTH''))
     (handleAssetUpload
        [(''id2'', \<lparr>file_name = ''b.png'', file_result = Some ''data:image/png;base64,BBBB''\<rparr>)]
        example_App))) = analyzeCalls example_App"
  by (simp add: handleAssetUpload_def reader_onload_def initial_App_def runAnalysisIfNeeded_def)

text \<open>
  Claim C2, where the code departs from it. The in-progress flag of a frame is read by
  one control only, the render button of its card, which it disables; neither
  \<open>performRegeneration\<close> nor \<open>handleFrameChange\<close> reads it. While a render call for
  frame \<open>i\<close> is in flight and its flag is set, a click on the render button does
  nothing, but choosing a shot type in the select of the same card, which is never
  disabled, calls \<open>handleFrameChange\<close>, and that starts another render call for \<open>i\<close>
  at once: two calls for \<open>i\<close> are then in flight at the same time.
\<close>

theorem shot_type_change_starts_concurrent_render:
  assumes "i < length (frames s)" "productionProtocol s \<noteq> '''' \<or> assets s \<noteq> []"
    "regeneratingIndices s i = Some True" "i \<in> set (rendersInFlight s)"
  shows "render_button_click i analysis s = (False, s)
         \<and> (\<exists>s'. handleFrameChange i (SetShotType v) s = Inr s'
                \<and> regeneratingIndices s' i = Some True
                \<and> rendersInFlight s' = rendersInFlight s @ [i]
                \<and> count_list (rendersInFlight s') i = count_list (rendersInFlight s) i + 1
                \<and> 2 \<le> count_list (rendersInFlight s') i)"
proof -
  obtain s' where h: "handleFrameChange i (SetShotType v) s = Inr s'"
    and f: "regeneratingIndices s' = (regeneratingIndices s)(i \<mapsto> True)"
    and r: "rendersInFlight s' = rendersInFlight s @ [i]"
    using handleFrameChange_shotType_render [OF assms(1,2)] by blast
  have "count_list (rendersInFlight s) i \<noteq> 0"
    using assms(4) by (simp add: count_list_0_iff)
  then have c: "count_list (rendersInFlight s') i = count_list (rendersInFlight s) i + 1"
    "2 \<le> count_list (rendersInFlight s') i"
    by (simp_all add: r count_list_snoc)
  show ?thesis
    using h f r c assms(3)
    by (simp add: render_button_disabled_def render_button_click_def)
qed

text \<open>
  The failing input, from the example state: an action is typed into the card of frame
  0, which enables its render button; a click on the button starts a render call for
  frame 0 and sets its flag; a second click does nothing; the shot type of frame 0 is
  then changed to CU while that call is in flight, and a second render call for frame
  0 is in flight beside the first.
\<close>

theorem shot_type_change_starts_concurrent_render_witness:
  "\<not> render_button_disabled 0
       (projr (handleFrameChange 0 (SetAction ''A runner turns'') example_App))
   \<and> fst (render_button_click 0 (Inr None)
       (projr (handleFrameChange 0 (SetAction ''A runner turns'') example_App))) = True
   \<and> regeneratingIndices (snd (render_button_click 0 (Inr None)
       (projr (handleFrameChange 0 (SetAction ''A runner turns'') example_App)))) 0 = Some True
   \<and> rendersInFlight (snd (render_button_click 0 (Inr None)
       (projr (handleFrameChange 0 (SetAction ''A runner turns'') example_App)))) = [0]
   \<and> fst (render_button_click 0 (Inr None) (snd (render_button_click 0 (Inr None)
       (projr (handleFrameChange 0 (SetAction ''A runner turns'') example_App))))) = False
   \<and> rendersInFlight (projr (handleFrameChange 0 (SetShotType ''CU'') (snd (render_button_click 0 (Inr None)
       (projr (handleFrameChange 0 (SetAction ''A runner turns'') example_App)))))) = [0, 0]"
proof -
  define s1 where "s1 = projr (handleFrameChange 0 (SetAction ''A runner turns'') example_App)"
  define s2 where "s2 = snd (render_button_click 0 (Inr None) s1)"
  have s1: "s1 = example_App\<lparr>frames := (frames initial_App)[0 := initial_frame\<lparr>action := ''A runner turns''\<rparr>]\<rparr>"
    by (simp add: s1_def handleFrameChange_def assign_field_def initial_App_frames)
  have b: "\<not> render_button_disabled 0 s1"
    by (simp add: s1 render_button_disabled_def initial_App_def)
  have l1: "0 < length (frames s1)" by (simp add: s1 initial_App_frames)
  have an: "fst (runAnalysisIfNeeded (Inr None) s1) = Inr ''PROTOCOL''"
    "snd (runAnalysisIfNeeded (Inr None) s1) = s1"
    by (simp_all add: s1 runAnalysisIfNeeded_def)
  have a1: "assets s1 \<noteq> []" by (simp add: s1)
  have c: "render_button_click 0 (Inr None) s1
           = (True, s1\<lparr>regeneratingIndices := (regeneratingIndices s1)(0 \<mapsto> True),
                        rendersInFlight := rendersInFlight s1 @ [0]\<rparr>)"
    using b l1 request_issues_call [OF a1 an(1) l1] by (simp add: render_button_click_def an(2))
  have s2: "s2 = s1\<lparr>regeneratingIndices := (regeneratingIndices s1)(0 \<mapsto> True),
                        rendersInFlight := rendersInFlight s1 @ [0]\<rparr>"
    by (simp add: s2_def c)
  have r1: "rendersInFlight s1 = []" by (simp add: s1 initial_App_def)
  have i: "0 < length (frames s2)" using l1 by (simp add: s2)
  have p: "productionProtocol s2 \<noteq> '''' \<or> assets s2 \<noteq> []" using a1 by (simp add: s2)
  have f: "regeneratingIndices s2 0 = Some True" by (simp add: s2)
  have e: "rendersInFlight s2 = [0]" by (simp add: s2 r1)
  have m: "0 \<in> set (rendersInFlight s2)" by (simp add: e)
  obtain s3 where d: "render_button_click 0 (Inr None) s2 = (False, s2)"
    and g: "handleFrameChange 0 (SetShotType ''CU'') s2 = Inr s3"
    and h: "rendersInFlight s3 = rendersInFlight s2 @ [0]"
    using shot_type_change_starts_concurrent_render [OF i p f m, of "Inr None" "''CU''"] by blast
  have "\<not> render_button_disabled 0 s1 \<and> fst (render_button_click 0 (Inr None) s1) = True
        \<and> regeneratingIndices s2 0 = Some True \<and> rendersInFlight s2 = [0]
        \<and> fst (render_button_click 0 (Inr None) s2) = False
        \<and> rendersInFlight (projr (handleFrameChange 0 (SetShotType ''CU'') s2)) = [0, 0]"
    using b c f e d g h by simp
  then show ?thesis unfolding s2_def s1_def .
qed




text \<open>
  Claim C4, as the code has it. A render failure (the call throws, or returns no
  image) never leaves \<open>performRegeneration\<close>. On a direct request
  (\<open>handleRegenerateFrame\<close>) it is written to the console, no alert is shown, the
  frames are as before and the flag is cleared. In the full generation it is caught
  for each frame in the same way and the loop goes on: every frame whose render
  succeeded has its image, every frame whose render failed has none.
\<close>

theorem render_failure_is_caught_per_shot:
  "(assets s \<noteq> [] \<and> fst (runAnalysisIfNeeded analysis s) = Inr protocol
      \<and> i < length (frames s)
      \<and> generateCinemaFrame (targetResolution s) response = Inl e
    \<longrightarrow> (\<exists>s'. handleRegenerateFrame i analysis response s = Some s'
           \<and> alerts s' = alerts s
           \<and> console_errors s' = console_errors s @ [(i, e)]
           \<and> frames s' = frames s
           \<and> regeneratingIndices s' i = Some False))
   \<and> (sceneDesc s \<noteq> '''' \<and> fst (runAnalysisIfNeeded analysis s) = Inr protocol
      \<and> planStoryboardSequence planning = Inr plan \<and> plan \<noteq> []
    \<longrightarrow> (\<exists>s'. generateFullStoryboard analysis planning renders s = Some s'
           \<and> alerts s' = alerts s
           \<and> (\<forall>j < length (frames s).
                 image_f (frames s' ! j) =
                   (case generateCinemaFrame (targetResolution s) (renders j) of
                      Inr newImage \<Rightarrow> Some newImage
                    | Inl e \<Rightarrow> None))
           \<and> console_errors s' = console_errors s @
               concat (map (\<lambda>i. case generateCinemaFrame (targetResolution s) (renders i) of
                                   Inl e \<Rightarrow> [(i, e)] | Inr newImage \<Rightarrow> [])
                           [0..<length (frames s)])))"
proof (intro conjI impI)
  assume "assets s \<noteq> [] \<and> fst (runAnalysisIfNeeded analysis s) = Inr protocol
      \<and> i < length (frames s)
      \<and> generateCinemaFrame (targetResolution s) response = Inl e"
  then show "\<exists>s'. handleRegenerateFrame i analysis response s = Some s'
           \<and> alerts s' = alerts s
           \<and> console_errors s' = console_errors s @ [(i, e)]
           \<and> frames s' = frames s
           \<and> regeneratingIndices s' i = Some False"
    using handleRegenerateFrame_failure [of s analysis protocol i response e] by blast
next
  assume h: "sceneDesc s \<noteq> '''' \<and> fst (runAnalysisIfNeeded analysis s) = Inr protocol
      \<and> planStoryboardSequence planning = Inr plan \<and> plan \<noteq> []"
  obtain s' where g: "generateFullStoryboard analysis planning renders s = Some s'"
    and a: "alerts s' = alerts s"
    and f: "\<forall>j < length (frames s). frames s' ! j =
                 (case generateCinemaFrame (targetResolution s) (renders j) of
                    Inr newImage \<Rightarrow>
                      (planned_frame (plan_entry plan j) (frames s ! j))\<lparr>image_f := Some newImage\<rparr>
                  | Inl e \<Rightarrow> planned_frame (plan_entry plan j) (frames s ! j))"
    using generateFullStoryboard_planned [of s analysis protocol planning plan renders] h
    by blast
  have c: "console_errors s' = console_errors s @
               concat (map (\<lambda>i. case generateCinemaFrame (targetResolution s) (renders i) of
                                   Inl e \<Rightarrow> [(i, e)] | Inr newImage \<Rightarrow> [])
                           [0..<length (frames s)])"
    using generateFullStoryboard_console [of s analysis protocol planning plan renders] h g
    by auto
  have "image_f (frames s' ! j) =
                   (case generateCinemaFrame (targetResolution s) (renders j) of
                      Inr newImage \<Rightarrow> Some newImage
                    | Inl e \<Rightarrow> None)" if "j < length (frames s)" for j
    using f [rule_format, OF that] by (simp add: planned_frame_image split: sum.splits)
  then show "\<exists>s'. generateFullStoryboard analysis planning renders s = Some s'
           \<and> alerts s' = alerts s
           \<and> (\<forall>j < length (frames s).
                 image_f (frames s' ! j) =
                   (case generateCinemaFrame (targetResolution s) (renders j) of
                      Inr newImage \<Rightarrow> Some newImage
                    | Inl e \<Rightarrow> None))
           \<and> console_errors s' = console_errors s @
               concat (map (\<lambda>i. case generateCinemaFrame (targetResolution s) (renders i) of
                                   Inl e \<Rightarrow> [(i, e)] | Inr newImage \<Rightarrow> [])
                           [0..<length (frames s)])"
    using g a c by blast
qed

theorem render_failure_is_caught_per_shot_witness:
  "(\<exists>s'. handleRegenerateFrame 0 (Inr None) (Inr [None]) example_App = Some s'
       \<and> alerts s' = []
       \<and> console_errors s' = [(0, Error (ImageNotReturned Res4K))]
       \<and> frames s' = frames example_App)
   \<and> (\<exists>s'. generateFullStoryboard (Inr None)
              (Inr (Parsed [\<lparr>fd_shotType = Some ''CU'', fd_action = Some ''Close on the eyes''\<rparr>]))
              (\<lambda>j. if j = 1 then Inl (Error (ServiceMessage ''503'')) else Inr [Some ''AAAA''])
              example_App = Some s'
       \<and> alerts s' = []
       \<and> image_f (frames s' ! 0) = Some ''data:image/png;base64,AAAA''
       \<and> image_f (frames s' ! 1) = None
       \<and> image_f (frames s' ! 2) = Some ''data:image/png;base64,AAAA'')"
proof -
  let ?plan = "[\<lparr>fd_shotType = Some ''CU'', fd_action = Some ''Close on the eyes''\<rparr>]"
  let ?renders = "\<lambda>j::nat. if j = 1 then Inl (Error (ServiceMessage ''503'')) else Inr [Some ''AAAA'']"
  note t = render_failure_is_caught_per_shot
    [of example_App "Inr None" "''PROTOCOL''" 0 "Inr [None]" "Error (ImageNotReturned Res4K)"
        "Inr (Parsed ?plan)" ?plan ?renders]
  have h1: "assets example_App \<noteq> [] \<and> fst (runAnalysisIfNeeded (Inr None) example_App) = Inr ''PROTOCOL''
      \<and> 0 < length (frames example_App)
      \<and> generateCinemaFrame (targetResolution example_App) (Inr [None]) = Inl (Error (ImageNotReturned Res4K))"
  proof (intro conjI)
    show "assets example_App \<noteq> []" by simp
    show "fst (runAnalysisIfNeeded (Inr None) example_App) = Inr ''PROTOCOL''"
      by (rule example_App_analysis)
    show "0 < length (frames example_App)" by (simp add: initial_App_frames)
    show "generateCinemaFrame (targetResolution example_App) (Inr [None]) = Inl (Error (ImageNotReturned Res4K))"
      by (simp add: generateCinemaFrame_def initial_App_def)
  qed
  have h2: "sceneDesc example_App \<noteq> '''' \<and> fst (runAnalysisIfNeeded (Inr None) example_App) = Inr ''PROTOCOL''
      \<and> planStoryboardSequence (Inr (Parsed ?plan)) = Inr ?plan \<and> ?plan \<noteq> []"
    by (simp add: example_App_analysis planStoryboardSequence_def)
  obtain s1 where a: "handleRegenerateFrame 0 (Inr None) (Inr [None]) example_App = Some s1"
    "alerts s1 = alerts example_App"
    "console_errors s1 = console_errors example_App @ [(0, Error (ImageNotReturned Res4K))]"
    "frames s1 = frames example_App"
    using t [THEN conjunct1, rule_format, OF h1] by blast
  obtain s2 where b: "generateFullStoryboard (Inr None) (Inr (Parsed ?plan)) ?renders example_App = Some s2"
    "alerts s2 = alerts example_App"
    and f: "\<forall>j < length (frames example_App).
                 image_f (frames s2 ! j) =
                   (case generateCinemaFrame (targetResolution example_App) (?renders j) of
                      Inr newImage \<Rightarrow> Some newImage
                    | Inl e \<Rightarrow> None)"
    using t [THEN conjunct2, rule_format, OF h2] by blast
  have i: "image_f (frames s2 ! 0) = Some ''data:image/png;base64,AAAA''"
    "image_f (frames s2 ! 1) = None"
    "image_f (frames s2 ! 2) = Some ''data:image/png;base64,AAAA''"
    using f [rule_format, of 0] f [rule_format, of 1] f [rule_format, of 2]
    by (simp_all add: initial_App_frames generateCinemaFrame_def)
  have e: "alerts example_App = []" "console_errors example_App = []"
    by (simp_all add: initial_App_def)
  show ?thesis
    using a b i e by simp
qed

text \<open>
  The claim as it was stated, that on a direct request the render error reaches the
  caller and the user: the service returns no image for frame 0 of the example state.
  The handler ends normally, no alert is shown, and the error is in the console log.
\<close>

theorem single_shot_failure_counterexample:
  "generateCinemaFrame (targetResolution example_App) (Inr [None]) = Inl (Error (ImageNotReturned Res4K))
   \<and> handleRegenerateFrame 0 (Inr None) (Inr [None]) example_App \<noteq> None
   \<and> alerts (the (handleRegenerateFrame 0 (Inr None) (Inr [None]) example_App)) = []
   \<and> console_errors (the (handleRegenerateFrame 0 (Inr None) (Inr [None]) example_App))
       = [(0, Error (ImageNotReturned Res4K))]"
  by (simp add: handleRegenerateFrame_def handleRegenerateFrame_request_def runAnalysisIfNeeded_def
        performRegeneration_start_def performRegeneration_resolve_def generateCinemaFrame_def
        initial_App_def)

text \<open>
  Claim C8. For every existing index and every shot type of the preset table,
  \<open>handleFrameChange\<close> with the field \<open>shotType\<close> sets the shot type of that frame
  and sets its zoom and position to the preset of the new shot type, whatever they
  were before; the other fields of the frame and the other frames stay as they are.
\<close>

theorem shot_type_change_applies_preset:
  assumes "idx < length (frames s)" "map_of SHOT_TYPE_PRESETS v = Some preset"
  shows "\<exists>s'. handleFrameChange idx (SetShotType v) s = Inr s'
           \<and> shotType (frames s' ! idx) = v
           \<and> zoom (frames s' ! idx) = Some (preset_zoom preset)
           \<and> position (frames s' ! idx) = Some (preset_position preset)
           \<and> image_f (frames s' ! idx) = image_f (frames s ! idx)
           \<and> action (frames s' ! idx) = action (frames s ! idx)
           \<and> dialogue (frames s' ! idx) = dialogue (frames s ! idx)
           \<and> length (frames s') = length (frames s)
           \<and> (\<forall>j. j \<noteq> idx \<longrightarrow> frames s' ! j = frames s ! j)"
proof -
  obtain s' where h: "handleFrameChange idx (SetShotType v) s = Inr s'"
    and f: "frames s' = (frames s)[idx := apply_preset v ((frames s ! idx)\<lparr>shotType := v\<rparr>)]"
    using handleFrameChange_shotType [OF assms(1)] by blast
  show ?thesis
    using h assms(1) by (simp add: f apply_preset_own [OF assms(2)])
qed

theorem shot_type_change_applies_preset_witness:
  "\<exists>s'. handleFrameChange 2 (SetShotType ''ECU'')
           (initial_App\<lparr>frames := (frames initial_App)[2 := initial_frame\<lparr>zoom := Some 105, position := Some ''12.0% 88.0%''\<rparr>]\<rparr>)
         = Inr s'
       \<and> shotType (frames s' ! 2) = ''ECU''
       \<and> zoom (frames s' ! 2) = Some 350
       \<and> position (frames s' ! 2) = Some ''center 30%''"
proof -
  let ?s = "initial_App\<lparr>frames := (frames initial_App)[2 := initial_frame\<lparr>zoom := Some 105, position := Some ''12.0% 88.0%''\<rparr>]\<rparr>"
  have i: "2 < length (frames ?s)" by (simp add: initial_App_def)
  have m: "map_of SHOT_TYPE_PRESETS ''ECU'' = Some \<lparr>preset_zoom = 350, preset_position = ''center 30%''\<rparr>"
    by (simp add: SHOT_TYPE_PRESETS_def)
  show ?thesis
    using shot_type_change_applies_preset [OF i m] by auto
qed

text \<open>
  Claim C9. When the render of an existing frame \<open>i\<close> succeeds,
  \<open>performRegeneration\<close> replaces the image of frame \<open>i\<close> by the new image and
  nothing else: shot type, action, dialogue, zoom and position of frame \<open>i\<close> and all
  other frames are unchanged.
\<close>

theorem regeneration_success_replaces_only_image:
  assumes "i < length currentFrames" "i < length (frames s)"
    "currentProtocol \<noteq> '''' \<or> assets s \<noteq> []"
    "generateCinemaFrame (case res of Some r \<Rightarrow> r | None \<Rightarrow> targetResolution s) response = Inr newImage"
  shows "\<exists>s'. performRegeneration i currentFrames currentProtocol res response s = Some s'
           \<and> frames s' = (frames s)[i := (frames s ! i)\<lparr>image_f := Some newImage\<rparr>]
           \<and> image_f (frames s' ! i) = Some newImage
           \<and> shotType (frames s' ! i) = shotType (frames s ! i)
           \<and> action (frames s' ! i) = action (frames s ! i)
           \<and> dialogue (frames s' ! i) = dialogue (frames s ! i)
           \<and> zoom (frames s' ! i) = zoom (frames s ! i)
           \<and> position (frames s' ! i) = position (frames s ! i)
           \<and> length (frames s') = length (frames s)
           \<and> (\<forall>j. j \<noteq> i \<longrightarrow> frames s' ! j = frames s ! j)"
proof -
  obtain s' where p: "performRegeneration i currentFrames currentProtocol res response s = Some s'"
    and f: "frames s' = (frames s)[i := (frames s ! i)\<lparr>image_f := Some newImage\<rparr>]"
    using performRegeneration_fields [OF assms(3,1,2), of res response] assms(4) by auto
  show ?thesis using p assms(2) by (simp add: f)
qed

theorem regeneration_success_replaces_only_image_witness:
  "\<exists>s'. performRegeneration 1 (frames initial_App) ''P'' None (Inr [None, Some ''AAAA'']) initial_App = Some s'
       \<and> frames s' = (frames initial_App)[1 := initial_frame\<lparr>image_f := Some ''data:image/png;base64,AAAA''\<rparr>]
       \<and> image_f (frames s' ! 1) = Some ''data:image/png;base64,AAAA''
       \<and> shotType (frames s' ! 1) = ''MS'' \<and> zoom (frames s' ! 1) = Some 180
       \<and> frames s' ! 0 = initial_frame"
proof -
  have a: "1 < length (frames initial_App)" by (simp add: initial_App_def)
  have b: "''P'' \<noteq> '''' \<or> assets initial_App \<noteq> []" by simp
  have c: "generateCinemaFrame (case None of Some r \<Rightarrow> r | None \<Rightarrow> targetResolution initial_App)
             (Inr [None, Some ''AAAA'']) = Inr ''data:image/png;base64,AAAA''"
    by (simp add: generateCinemaFrame_def)
  have n: "frames initial_App ! 1 = initial_frame" "frames initial_App ! 0 = initial_frame"
    by (simp_all add: initial_App_def)
  show ?thesis
    using regeneration_success_replaces_only_image [OF a a b c] n
    by (auto simp: initial_frame_def)
qed

end
